theory Spec2Isabelle
  imports Complex_Main
begin

text \<open>
  A model of the aggregation core of the accessibility test suite: the chapter
  classifier and the chapter buckets of the audit results and the test run that fills
  the report (run-tests.js), the eight check adapters (tests/), the remediation
  catalog with its priority score (remediation-data.js), the three phases of the
  client presentation, and the disability statistics and the score of the report
  (generate-report.js). Exceptions are the left values of a sum type, objects are
  association lists in insertion order, and what the browser and the audit library
  return for a page is an input of the run.
\<close>

section \<open>JavaScript objects used as lookup tables\<close>

text \<open>
  The catalogs of the repository (\<^verbatim>\<open>AXE_TAG_TO_CHAPTER\<close>, \<^verbatim>\<open>REMEDIATION_MAP\<close>,
  \<^verbatim>\<open>DISABILITY_MAP\<close>, ...) are object literals read with \<^verbatim>\<open>obj[key]\<close>. Such a read
  returns the own property when there is one, and otherwise walks the prototype chain:
  for a key that names a member of \<^verbatim>\<open>Object.prototype\<close> it returns that member (a
  function, or the prototype itself for \<^verbatim>\<open>__proto__\<close>), which is truthy and is none of
  the table's values. Only for every other key is the result \<^verbatim>\<open>undefined\<close>.
\<close>

datatype 'a js_prop = Own 'a | Inherited | Undefined

definition Object_prototype_names :: "string list" where
  "Object_prototype_names =
     [''constructor'', ''__defineGetter__'', ''__defineSetter__'', ''hasOwnProperty'',
      ''__lookupGetter__'', ''__lookupSetter__'', ''isPrototypeOf'',
      ''propertyIsEnumerable'', ''toString'', ''valueOf'', ''__proto__'',
      ''toLocaleString'']"

definition js_get :: "(string \<times> 'a) list \<Rightarrow> string \<Rightarrow> 'a js_prop" where
  "js_get obj k =
     (case map_of obj k of
        Some v \<Rightarrow> Own v
      | None \<Rightarrow> if k \<in> set Object_prototype_names then Inherited else Undefined)"

text \<open>Writing a key of an insertion-ordered table: the value of a key that is present
  is replaced in place, a new key is appended.\<close>

fun assoc_set :: "(string \<times> 'a) list \<Rightarrow> string \<Rightarrow> 'a \<Rightarrow> (string \<times> 'a) list" where
  "assoc_set [] k v = [(k, v)]"
| "assoc_set ((k', v') # obj) k v =
     (if k' = k then (k, v) # obj else (k', v') # assoc_set obj k v)"

text \<open>\<^verbatim>\<open>obj[k] = v\<close> on an object literal. The key \<^verbatim>\<open>__proto__\<close> is the accessor of
  \<^verbatim>\<open>Object.prototype\<close>: writing it creates no own property.\<close>

definition js_set :: "(string \<times> 'a) list \<Rightarrow> string \<Rightarrow> 'a \<Rightarrow> (string \<times> 'a) list" where
  "js_set obj k v = (if k = ''__proto__'' then obj else assoc_set obj k v)"

text \<open>Thrown values: a \<^verbatim>\<open>TypeError\<close> raised by the engine, or an error value with
  which an awaited call of the browser driver or of the audit library rejects. Both
  carry the \<^verbatim>\<open>message\<close> that the handlers read.\<close>

datatype js_error = TypeError string | Rejected string

fun err_message :: "js_error \<Rightarrow> string" where
  "err_message (TypeError m) = m"
| "err_message (Rejected m) = m"

text \<open>\<^verbatim>\<open>xs.forEach(f)\<close> where \<open>f\<close> updates captured state and may throw: the first
  exception ends the iteration.\<close>

fun forEach :: "('s \<Rightarrow> 'a \<Rightarrow> js_error + 's) \<Rightarrow> 's \<Rightarrow> 'a list \<Rightarrow> js_error + 's" where
  "forEach f s [] = Inr s"
| "forEach f s (x # xs) = (case f s x of Inl e \<Rightarrow> Inl e | Inr s' \<Rightarrow> forEach f s' xs)"

text \<open>A JavaScript \<^verbatim>\<open>Set\<close> of strings, kept in insertion order as \<^verbatim>\<open>Array.from\<close>
  reads it.\<close>

definition set_add :: "'a list \<Rightarrow> 'a \<Rightarrow> 'a list" where
  "set_add s x = (if x \<in> set s then s else s @ [x])"


section \<open>JavaScript strings\<close>

text \<open>A non-negative integer in a template literal.\<close>

function decimal :: "nat \<Rightarrow> string" where
  "decimal n =
     (if n < 10 then [''0123456789'' ! n]
      else decimal (n div 10) @ [''0123456789'' ! (n mod 10)])"
  by pat_completeness auto
termination by (relation "measure (\<lambda>n. n)") auto

declare decimal.simps [simp del]

text \<open>\<^verbatim>\<open>s.trim()\<close>, on strings of 8-bit characters: the white space and line
  terminators of JavaScript below 256 are the codes 9 to 13, 32 and 160.\<close>

definition js_whitespace :: "char \<Rightarrow> bool" where
  "js_whitespace c = (of_char c \<in> {9, 10, 11, 12, 13, 32, 160 :: nat})"

definition trim :: "string \<Rightarrow> string" where
  "trim s = rev (dropWhile js_whitespace (rev (dropWhile js_whitespace s)))"

text \<open>\<^verbatim>\<open>xs.join(sep)\<close> on an array of strings.\<close>

fun join :: "string list \<Rightarrow> string \<Rightarrow> string" where
  "join [] sep = []"
| "join [x] sep = x"
| "join (x # y # ys) sep = x @ sep @ join (y # ys) sep"

section \<open>Chapter taxonomy (checklists.js)\<close>

text \<open>\<^verbatim>\<open>Object.keys(CHECKLIST_CHAPTERS)\<close>, in the order of the literal.\<close>

definition CHECKLIST_CHAPTERS :: "string list" where
  "CHECKLIST_CHAPTERS =
     [''semantics'', ''images'', ''visualDesign'', ''responsive'', ''multimedia'',
      ''inputMethods'', ''forms'', ''dynamicUpdates'']"

definition AXE_TAG_TO_CHAPTER :: "(string \<times> string list) list" where
  "AXE_TAG_TO_CHAPTER =
     [(''wcag2a'', [''semantics'', ''images'', ''forms'', ''inputMethods'']),
      (''wcag2aa'', [''semantics'', ''images'', ''visualDesign'', ''forms'', ''inputMethods'']),
      (''wcag21a'', [''semantics'', ''images'', ''forms'', ''inputMethods'']),
      (''wcag21aa'', [''semantics'', ''images'', ''visualDesign'', ''forms'', ''inputMethods'']),
      (''wcag22aa'', [''semantics'', ''images'', ''visualDesign'', ''forms'', ''inputMethods'']),
      (''best-practice'', [''semantics'', ''images'', ''forms'', ''inputMethods'', ''dynamicUpdates'']),
      (''cat.semantics'', [''semantics'']),
      (''cat.name-role-value'', [''semantics'', ''forms'', ''inputMethods'']),
      (''cat.structure'', [''semantics'']),
      (''cat.color'', [''visualDesign'']),
      (''cat.parsing'', [''semantics'']),
      (''cat.aria'', [''semantics'', ''forms'', ''inputMethods'', ''dynamicUpdates'']),
      (''cat.forms'', [''forms'']),
      (''cat.keyboard'', [''inputMethods'']),
      (''cat.focus'', [''inputMethods'', ''semantics'']),
      (''cat.language'', [''semantics'']),
      (''cat.text-alternatives'', [''images'']),
      (''cat.time-based-media'', [''multimedia'']),
      (''cat.sensory-and-visual-cues'', [''visualDesign'']),
      (''cat.layout'', [''responsive'', ''visualDesign'']),
      (''cat.motion'', [''multimedia''])]"


section \<open>Audit results and their classification (run-tests.js)\<close>

text \<open>A record of the audit library: the fields the repository reads. \<^verbatim>\<open>tags\<close> may be
  absent (\<^verbatim>\<open>violation.tags || []\<close>).\<close>

record axe_record =
  rid :: string
  help_text :: string
  tags :: "string list option"
  nodes :: nat

definition add_tag :: "string list \<Rightarrow> string \<Rightarrow> js_error + string list" where
  "add_tag chapters tag =
     (case js_get AXE_TAG_TO_CHAPTER tag of
        Own ch \<Rightarrow> Inr (foldl set_add chapters ch)
      | Inherited \<Rightarrow> Inl (TypeError ''ch.forEach is not a function'')
      | Undefined \<Rightarrow> Inr chapters)"

definition categorizeAxeViolation :: "axe_record \<Rightarrow> js_error + string list" where
  "categorizeAxeViolation violation =
     (case forEach add_tag [] (case tags violation of Some t \<Rightarrow> t | None \<Rightarrow> []) of
        Inl e \<Rightarrow> Inl e
      | Inr chapters \<Rightarrow>
          Inr (if length chapters = 0 then set_add chapters ''semantics'' else chapters))"

text \<open>What \<^verbatim>\<open>builder.analyze()\<close> resolves to; each list may be absent
  (\<^verbatim>\<open>results.violations || []\<close>).\<close>

record axe_results =
  res_violations :: "axe_record list option"
  res_incomplete :: "axe_record list option"
  res_passes :: "axe_record list option"

record chapter_bucket =
  violations :: "axe_record list"
  incomplete :: "axe_record list"
  passes :: "axe_record list"

datatype kind = Violations | Incomplete | Passes

fun push :: "kind \<Rightarrow> axe_record \<Rightarrow> chapter_bucket \<Rightarrow> chapter_bucket" where
  "push Violations v b = b\<lparr>violations := violations b @ [v]\<rparr>"
| "push Incomplete v b = b\<lparr>incomplete := incomplete b @ [v]\<rparr>"
| "push Passes v b = b\<lparr>passes := passes b @ [v]\<rparr>"

fun bucket_of :: "kind \<Rightarrow> chapter_bucket \<Rightarrow> axe_record list" where
  "bucket_of Violations b = violations b"
| "bucket_of Incomplete b = incomplete b"
| "bucket_of Passes b = passes b"

text \<open>\<^verbatim>\<open>if (byChapter[ch]) byChapter[ch].violations.push(v)\<close>. \<^verbatim>\<open>byChapter\<close> is an object
  literal too: an inherited member passes the guard and has no \<^verbatim>\<open>violations\<close> array.\<close>

definition push_chapter ::
  "kind \<Rightarrow> axe_record \<Rightarrow> (string \<times> chapter_bucket) list \<Rightarrow> string
     \<Rightarrow> js_error + (string \<times> chapter_bucket) list" where
  "push_chapter k v byChapter ch =
     (case js_get byChapter ch of
        Own b \<Rightarrow> Inr (map (\<lambda>(c, b). if c = ch then (c, push k v b) else (c, b)) byChapter)
      | Inherited \<Rightarrow> Inl (TypeError ''Cannot read properties of undefined (reading push)'')
      | Undefined \<Rightarrow> Inr byChapter)"

definition bucket_record ::
  "kind \<Rightarrow> (string \<times> chapter_bucket) list \<Rightarrow> axe_record
     \<Rightarrow> js_error + (string \<times> chapter_bucket) list" where
  "bucket_record k byChapter v =
     (case categorizeAxeViolation v of
        Inl e \<Rightarrow> Inl e
      | Inr chapters \<Rightarrow> forEach (push_chapter k v) byChapter chapters)"

record axe_data =
  url :: string
  data_violations :: "axe_record list option"
  data_incomplete :: "axe_record list option"
  data_passes :: "axe_record list option"
  byChapter :: "(string \<times> chapter_bucket) list"

definition or_empty :: "'a list option \<Rightarrow> 'a list" where
  "or_empty xs = (case xs of Some l \<Rightarrow> l | None \<Rightarrow> [])"

definition runAxeScan :: "axe_results \<Rightarrow> string \<Rightarrow> js_error + axe_data" where
  "runAxeScan results u =
     (case forEach (bucket_record Violations)
             (map (\<lambda>ch. (ch, \<lparr>violations = [], incomplete = [], passes = []\<rparr>)) CHECKLIST_CHAPTERS)
             (or_empty (res_violations results)) of
        Inl e \<Rightarrow> Inl e
      | Inr bc1 \<Rightarrow>
     (case forEach (bucket_record Incomplete) bc1 (or_empty (res_incomplete results)) of
        Inl e \<Rightarrow> Inl e
      | Inr bc2 \<Rightarrow>
     (case forEach (bucket_record Passes) bc2 (or_empty (res_passes results)) of
        Inl e \<Rightarrow> Inl e
      | Inr bc3 \<Rightarrow>
          Inr \<lparr>url = u,
               data_violations = res_violations results,
               data_incomplete = res_incomplete results,
               data_passes = res_passes results,
               byChapter = bc3\<rparr>)))"


section \<open>Custom checks and the test run (run-tests.js)\<close>

text \<open>The adapters only ever write one of four status strings.\<close>

datatype status = Pass | Fail | Warn | Info

text \<open>One assertion outcome. The adapters return results without \<^verbatim>\<open>url\<close>;
  \<^verbatim>\<open>runCustomChecks\<close> adds it. A field that an object literal does not write is
  \<open>None\<close>.\<close>

record check_result =
  cid :: string
  cr_rule :: string
  status :: status
  message :: string
  cr_chapter :: "string option"
  cr_url :: "string option"

text \<open>What the browser and the audit library do for one visited URL, as far as
  \<^verbatim>\<open>main\<close> observes it:
  \<^item> \<open>goto\<close>: \<^verbatim>\<open>page.goto\<close> rejects with this message, or resolves;
  \<^item> \<open>analyze\<close>: \<^verbatim>\<open>builder.analyze()\<close> rejects with a message, or resolves to results;
  \<^item> \<open>checks\<close>: the adapter of each chapter throws (its message) or returns results;
  \<^item> \<open>mkdir_error\<close>: the screenshots directory is missing and \<^verbatim>\<open>mkdirSync\<close> throws.
  The screenshot files themselves are not modelled: each viewport has its own
  \<^verbatim>\<open>try\<close>/\<^verbatim>\<open>catch\<close> and nothing else reads them.\<close>

record page =
  goto :: "string option"
  analyze :: "string + axe_results"
  checks :: "string \<Rightarrow> string + check_result list"
  mkdir_error :: "string option"

text \<open>The first components of the \<^verbatim>\<open>chapters\<close> array of \<^verbatim>\<open>runCustomChecks\<close>; the
  second components are the adapters, here \<open>checks p\<close>.\<close>

definition chapters :: "string list" where
  "chapters =
     [''semantics'', ''images'', ''visualDesign'', ''responsive'', ''multimedia'',
      ''inputMethods'', ''forms'', ''dynamicUpdates'']"

definition run_chapter :: "page \<Rightarrow> string \<Rightarrow> string \<Rightarrow> check_result list" where
  "run_chapter p u chapterId =
     (case checks p chapterId of
        Inr results \<Rightarrow> map (\<lambda>r. r\<lparr>cr_url := Some u\<rparr>) results
      | Inl msg \<Rightarrow>
          [\<lparr>cid = chapterId @ ''-error'', cr_rule = chapterId @ '' checks'', status = Fail,
            message = msg, cr_chapter = Some chapterId, cr_url = Some u\<rparr>])"

definition runCustomChecks :: "page \<Rightarrow> string \<Rightarrow> check_result list" where
  "runCustomChecks p u = concat (map (run_chapter p u) chapters)"

record summary_counts =
  pass :: nat
  fail :: nat
  warn :: nat

record report =
  urls :: "string list"
  axeResults :: "(string \<times> axe_data) list"
  customResults :: "check_result list"
  summary :: summary_counts


text \<open>The body of the \<^verbatim>\<open>forEach\<close> that tallies a visit's results.\<close>

definition tally :: "summary_counts \<Rightarrow> check_result \<Rightarrow> summary_counts" where
  "tally s r =
     (if status r = Pass then s\<lparr>pass := pass s + 1\<rparr>
      else if status r = Fail then s\<lparr>fail := fail s + 1\<rparr>
      else s\<lparr>warn := warn s + 1\<rparr>)"

text \<open>The \<^verbatim>\<open>catch (err)\<close> block of the visit.\<close>

definition page_load_failure :: "report \<Rightarrow> string \<Rightarrow> string \<Rightarrow> report" where
  "page_load_failure r u msg =
     r\<lparr>customResults := customResults r @
          [\<lparr>cid = ''page-load'', cr_rule = ''Page load'', status = Fail, message = msg,
            cr_chapter = None, cr_url = Some u\<rparr>],
       summary := (summary r)\<lparr>fail := fail (summary r) + 1\<rparr>\<rparr>"

text \<open>One iteration of \<^verbatim>\<open>for (const url of urls)\<close>. Whatever the \<^verbatim>\<open>try\<close> block has
  written to the report before a statement throws stays written.\<close>

definition test_url :: "report \<Rightarrow> string \<times> page \<Rightarrow> report" where
  "test_url r visit =
     (case visit of (u, p) \<Rightarrow>
      (case goto p of
         Some msg \<Rightarrow> page_load_failure r u msg
       | None \<Rightarrow>
      (case analyze p of
         Inl msg \<Rightarrow> page_load_failure r u msg
       | Inr results \<Rightarrow>
      (case runAxeScan results u of
         Inl e \<Rightarrow> page_load_failure r u (err_message e)
       | Inr axeData \<Rightarrow>
          (let customData = runCustomChecks p u;
               r' = r\<lparr>urls := urls r @ [u],
                      axeResults := js_set (axeResults r) u axeData,
                      customResults := customResults r @ customData,
                      summary := foldl tally (summary r) customData\<rparr>;
               hasIssues = (0 < length (or_empty (data_violations axeData)) \<or>
                            list_ex (\<lambda>r. status r = Fail \<or> status r = Warn) customData)
           in if hasIssues
              then (case mkdir_error p of Some msg \<Rightarrow> page_load_failure r' u msg | None \<Rightarrow> r')
              else r')))))"

text \<open>\<^verbatim>\<open>main\<close> up to the point where the report is written: with no URL the process
  exits with code 1 and there is no report.\<close>

definition main :: "(string \<times> page) list \<Rightarrow> string + report" where
  "main visits =
     (if length visits = 0
      then Inl ''No URLs. Use --urls=\"url1,url2\" or configure urls.config.js''
      else Inr (foldl test_url
                  \<lparr>urls = [], axeResults = [], customResults = [],
                    summary = \<lparr>pass = 0, fail = 0, warn = 0\<rparr>\<rparr>
                  visits))"


section \<open>The eight adapters (tests/chapter1-semantics.js ... tests/chapter8-dynamic.js)\<close>

text \<open>
  An adapter reads the loaded page through awaited calls of the browser driver
  (\<^verbatim>\<open>page.title()\<close>, \<^verbatim>\<open>page.evaluate(...)\<close>, \<^verbatim>\<open>page.setViewportSize(...)\<close>) and builds
  its results from what they return. The function that \<^verbatim>\<open>page.evaluate\<close> runs inside
  the browser is not modelled: its outcome is an input, either the message of the
  error with which the call rejects or the value that the function returns. A
  rejection leaves the adapter at once, as an exception, with the results collected
  so far lost.
\<close>

definition await :: "string + 'a \<Rightarrow> ('a \<Rightarrow> string + 'b) \<Rightarrow> string + 'b" where
  "await outcome rest = (case outcome of Inl msg \<Rightarrow> Inl msg | Inr v \<Rightarrow> rest v)"

subsection \<open>Chapter 1: semantic structure and navigation\<close>

text \<open>The objects that the functions run in the browser return.\<close>

record heading_structure =
  hs_total :: nat
  hs_skips :: nat
  hs_h1Count :: nat

record link_checks =
  lc_total :: nat
  lc_emptyText :: nat
  lc_genericText :: nat

record table_checks =
  tc_total :: nat
  tc_noTh :: nat
  tc_noCaption :: nat

record list_checks =
  li_total :: nat
  li_orphanLi :: nat

record iframe_checks =
  if_total :: nat
  if_noTitle :: nat

text \<open>The outcomes of the awaited calls of \<^verbatim>\<open>runSemanticChecks\<close>, in their order.
  \<^verbatim>\<open>getAttribute\<close> returns \<^verbatim>\<open>null\<close> for an attribute that is absent.\<close>

record semantics_page =
  sem_title :: "string + string"
  sem_htmlLang :: "string + string option"
  sem_landmarkCount :: "string + nat"
  sem_mainCount :: "string + nat"
  sem_headingStructure :: "string + heading_structure"
  sem_linkChecks :: "string + link_checks"
  sem_skipLink :: "string + bool"
  sem_tableChecks :: "string + table_checks"
  sem_listChecks :: "string + list_checks"
  sem_iframeChecks :: "string + iframe_checks"
  sem_duplicateIds :: "string + string list"

definition runSemanticChecks :: "semantics_page \<Rightarrow> string + check_result list" where
  "runSemanticChecks page =
     await (sem_title page) (\<lambda>title.
     let results =
       [\<lparr>cid = ''page-title-exists'', cr_rule = ''Page MUST have a title with text'',
         status = (if title \<noteq> [] \<and> 0 < length (trim title) then Pass else Fail),
         message = (if title \<noteq> []
                    then ''Title: \"'' @ take 80 title @ (if 80 < length title then ''...'' else []) @ ''\"''
                    else ''Page has no title''),
         cr_chapter = Some ''semantics'', cr_url = None\<rparr>] in
     await (sem_htmlLang page) (\<lambda>htmlLang.
     let results = results @
       [\<lparr>cid = ''html-lang'', cr_rule = ''Primary language MUST be identified on html element'',
         status = (case htmlLang of
                     Some l \<Rightarrow> if l \<noteq> [] \<and> 0 < length (trim l) then Pass else Fail
                   | None \<Rightarrow> Fail),
         message = (case htmlLang of
                      Some l \<Rightarrow> if l \<noteq> [] then ''lang=\"'' @ l @ ''\"''
                                else ''Missing or empty lang attribute on <html>''
                    | None \<Rightarrow> ''Missing or empty lang attribute on <html>''),
         cr_chapter = Some ''semantics'', cr_url = None\<rparr>] in
     await (sem_landmarkCount page) (\<lambda>landmarkCount.
     let results = results @
       [\<lparr>cid = ''landmarks-present'',
         cr_rule = ''Landmarks SHOULD be used for layout (main, nav, header, footer, etc.)'',
         status = (if 0 < landmarkCount then Pass else Warn),
         message = ''Found '' @ decimal landmarkCount @ '' landmark element(s)'',
         cr_chapter = Some ''semantics'', cr_url = None\<rparr>] in
     await (sem_mainCount page) (\<lambda>mainCount.
     let results = results @
       [\<lparr>cid = ''single-main'', cr_rule = ''Page SHOULD have only one main landmark'',
         status = (if mainCount = 1 then Pass else if mainCount = 0 then Warn else Fail),
         message = ''Found '' @ decimal mainCount @ '' main landmark(s)'',
         cr_chapter = Some ''semantics'', cr_url = None\<rparr>] in
     await (sem_headingStructure page) (\<lambda>headingStructure.
     let results = results @
       [\<lparr>cid = ''heading-structure'',
         cr_rule = ''Main content SHOULD start with h1, headings SHOULD NOT skip levels'',
         status = (if hs_skips headingStructure = 0 \<and> 1 \<le> hs_h1Count headingStructure
                   then Pass else Warn),
         message = ''Headings: '' @ decimal (hs_total headingStructure) @ '' total, '' @
                   decimal (hs_h1Count headingStructure) @ '' h1(s), '' @
                   decimal (hs_skips headingStructure) @ '' level skip(s)'',
         cr_chapter = Some ''semantics'', cr_url = None\<rparr>] in
     await (sem_linkChecks page) (\<lambda>linkChecks.
     let results = results @
       [\<lparr>cid = ''link-text'', cr_rule = ''Links MUST have programmatically-discernible text'',
         status = (if lc_emptyText linkChecks = 0 then Pass else Fail),
         message = (if 0 < lc_emptyText linkChecks
                    then decimal (lc_emptyText linkChecks) @ '' link(s) with no accessible text''
                    else decimal (lc_total linkChecks) @ '' links checked''),
         cr_chapter = Some ''semantics'', cr_url = None\<rparr>];
       results = results @
        (if 0 < lc_genericText linkChecks
         then [\<lparr>cid = ''link-meaningful'',
                 cr_rule = ''Link purpose SHOULD be determinable from link text alone'',
                 status = Warn,
                 message = decimal (lc_genericText linkChecks) @
                           '' link(s) with generic text (e.g. \"click here\")'',
                 cr_chapter = Some ''semantics'', cr_url = None\<rparr>]
         else []) in
     await (sem_skipLink page) (\<lambda>skipLink.
     let results = results @
       [\<lparr>cid = ''skip-link'', cr_rule = ''Skip link SHOULD be provided for keyboard users'',
         status = (if skipLink then Pass else Warn),
         message = (if skipLink then ''Skip link found'' else ''No skip link detected''),
         cr_chapter = Some ''semantics'', cr_url = None\<rparr>] in
     await (sem_tableChecks page) (\<lambda>tableChecks.
     let results = results @
        (if 0 < tc_total tableChecks
         then [\<lparr>cid = ''table-headers'', cr_rule = ''Data tables MUST have header cells (th)'',
                 status = (if tc_noTh tableChecks = 0 then Pass else Fail),
                 message = (if 0 < tc_noTh tableChecks
                            then decimal (tc_noTh tableChecks) @ '' table(s) without th''
                            else ''All tables have headers''),
                 cr_chapter = Some ''semantics'', cr_url = None\<rparr>]
         else []) in
     await (sem_listChecks page) (\<lambda>listChecks.
     let results = results @
        (if 0 < li_orphanLi listChecks
         then [\<lparr>cid = ''list-markup'', cr_rule = ''Lists MUST use semantic markup (ul/ol)'',
                 status = Fail,
                 message = decimal (li_orphanLi listChecks) @ '' orphan li element(s) found'',
                 cr_chapter = Some ''semantics'', cr_url = None\<rparr>]
         else []) in
     await (sem_iframeChecks page) (\<lambda>iframeChecks.
     let results = results @
        (if 0 < if_total iframeChecks
         then [\<lparr>cid = ''iframe-titles'', cr_rule = ''Iframes MUST have non-empty title attribute'',
                 status = (if if_noTitle iframeChecks = 0 then Pass else Fail),
                 message = (if 0 < if_noTitle iframeChecks
                            then decimal (if_noTitle iframeChecks) @ '' iframe(s) without title''
                            else ''All iframes have titles''),
                 cr_chapter = Some ''semantics'', cr_url = None\<rparr>]
         else []) in
     await (sem_duplicateIds page) (\<lambda>duplicateIds.
     let results = results @
        (if 0 < length duplicateIds
         then [\<lparr>cid = ''unique-ids'', cr_rule = ''IDs MUST be unique within the page'',
                 status = Fail,
                 message = ''Duplicate IDs: '' @ join duplicateIds '', '',
                 cr_chapter = Some ''semantics'', cr_url = None\<rparr>]
         else []) in
     Inr results)))))))))))"

subsection \<open>Chapter 2: images, canvas, SVG\<close>

text \<open>Of the arrays that the browser functions return the adapter reads the length
  only; their elements are kept as the functions build them (an index, with the
  \<^verbatim>\<open>src\<close> of the image or the length of its text).\<close>

record image_checks =
  ic_total :: nat
  ic_missingAlt :: "(nat \<times> string) list"
  ic_emptyAlt :: "nat list"
  ic_longAlt :: "(nat \<times> nat) list"
  ic_decorativeWithAlt :: "nat list"

record svg_checks =
  sc_total :: nat
  sc_noRole :: "nat list"
  sc_noAccessibleName :: "nat list"

record canvas_checks =
  cc_total :: nat
  cc_noRole :: "nat list"
  cc_noAlt :: "nat list"

record map_checks =
  mc_total :: nat
  mc_areaNoAlt :: nat

record images_page =
  img_imageChecks :: "string + image_checks"
  img_svgChecks :: "string + svg_checks"
  img_canvasChecks :: "string + canvas_checks"
  img_mapChecks :: "string + map_checks"

text \<open>The rule of \<^verbatim>\<open>img-alt-length\<close> has the sign "at most" before 250; it is written
  \<^verbatim>\<open><=\<close> here.\<close>

definition runImageChecks :: "images_page \<Rightarrow> string + check_result list" where
  "runImageChecks page =
     await (img_imageChecks page) (\<lambda>imageChecks.
     let results =
        (if 0 < ic_total imageChecks
         then [\<lparr>cid = ''img-alt'',
                 cr_rule = ''Informative images MUST have programmatically-discernible alternative text'',
                 status = (if length (ic_missingAlt imageChecks) = 0 then Pass else Fail),
                 message = (if 0 < length (ic_missingAlt imageChecks)
                            then decimal (length (ic_missingAlt imageChecks)) @
                                 '' image(s) missing alt attribute''
                            else decimal (ic_total imageChecks) @ '' images have alt text''),
                 cr_chapter = Some ''images'', cr_url = None\<rparr>] @
              (if 0 < length (ic_longAlt imageChecks)
               then [\<lparr>cid = ''img-alt-length'',
                       cr_rule = ''Alternative text SHOULD be concise (<=250 characters)'',
                       status = Warn,
                       message = decimal (length (ic_longAlt imageChecks)) @
                                 '' image(s) with alt > 250 chars'',
                       cr_chapter = Some ''images'', cr_url = None\<rparr>]
               else [])
         else []) in
     await (img_svgChecks page) (\<lambda>svgChecks.
     let results = results @
        (if 0 < sc_total svgChecks
         then [\<lparr>cid = ''svg-role'', cr_rule = ''SVG elements SHOULD have role=\"img\"'',
                 status = (if length (sc_noRole svgChecks) = 0 then Pass else Warn),
                 message = (if 0 < length (sc_noRole svgChecks)
                            then decimal (length (sc_noRole svgChecks)) @
                                 '' SVG(s) without role=\"img\"''
                            else ''All SVGs have role''),
                 cr_chapter = Some ''images'', cr_url = None\<rparr>,
               \<lparr>cid = ''svg-accessible-name'',
                 cr_rule = ''Informative/actionable SVGs MUST have meaningful alternative text'',
                 status = (if length (sc_noAccessibleName svgChecks) = 0 then Pass else Warn),
                 message = (if 0 < length (sc_noAccessibleName svgChecks)
                            then decimal (length (sc_noAccessibleName svgChecks)) @
                                 '' SVG(s) without accessible name''
                            else ''All SVGs have accessible names''),
                 cr_chapter = Some ''images'', cr_url = None\<rparr>]
         else []) in
     await (img_canvasChecks page) (\<lambda>canvasChecks.
     let results = results @
        (if 0 < cc_total canvasChecks
         then [\<lparr>cid = ''canvas-alt'',
                 cr_rule = ''Canvas elements MUST have role=\"img\" and text alternative'',
                 status = (if length (cc_noAlt canvasChecks) = 0 \<and> length (cc_noRole canvasChecks) = 0
                           then Pass else Fail),
                 message = (if 0 < length (cc_noAlt canvasChecks) \<or> 0 < length (cc_noRole canvasChecks)
                            then decimal (cc_total canvasChecks) @
                                 '' canvas element(s) need role and alternative text''
                            else ''All canvases have role and alt''),
                 cr_chapter = Some ''images'', cr_url = None\<rparr>]
         else []) in
     await (img_mapChecks page) (\<lambda>mapChecks.
     let results = results @
        (if 0 < mc_total mapChecks \<and> 0 < mc_areaNoAlt mapChecks
         then [\<lparr>cid = ''image-map-alt'', cr_rule = ''Image map areas MUST have alternative text'',
                 status = Fail,
                 message = decimal (mc_areaNoAlt mapChecks) @ '' area(s) in image map without alt'',
                 cr_chapter = Some ''images'', cr_url = None\<rparr>]
         else []) in
     Inr results))))"

subsection \<open>Chapter 3: visual design and colors\<close>

record link_style_checks =
  ls_total :: nat
  ls_colorOnlyCount :: nat

record focus_style_checks =
  fs_total :: nat
  fs_noVisibleOutline :: nat

record visual_page =
  vis_linkStyleChecks :: "string + link_style_checks"
  vis_focusChecks :: "string + focus_style_checks"

definition runVisualChecks :: "visual_page \<Rightarrow> string + check_result list" where
  "runVisualChecks page =
     await (vis_linkStyleChecks page) (\<lambda>linkStyleChecks.
     let results =
        (if 0 < ls_colorOnlyCount linkStyleChecks
         then [\<lparr>cid = ''link-differentiation'',
                 cr_rule = ''Links MUST not rely on color alone; provide underline/outline on hover/focus'',
                 status = Warn,
                 message = decimal (ls_colorOnlyCount linkStyleChecks) @
                           '' link(s) may rely on color only (no underline/border)'',
                 cr_chapter = Some ''visualDesign'', cr_url = None\<rparr>]
         else []) in
     await (vis_focusChecks page) (\<lambda>focusChecks.
     let results = results @
       [\<lparr>cid = ''focus-indicator'',
         cr_rule = ''Focusable elements MUST have visible focus indicator (axe covers contrast)'',
         status = Info,
         message = decimal (fs_total focusChecks) @
                   '' focusable elements - verify focus styles in axe results'',
         cr_chapter = Some ''visualDesign'', cr_url = None\<rparr>] in
     Inr results))"

subsection \<open>Chapter 4: responsive design and zoom\<close>

record overflow_checks =
  oc_docWidth :: nat
  oc_viewWidth :: nat
  oc_hasHorizontalScroll :: bool

text \<open>Without a viewport \<^verbatim>\<open>meta\<close> element the browser function returns
  \<^verbatim>\<open>{ present: false, content: null }\<close>: \<^verbatim>\<open>allowsZoom\<close> is then \<^verbatim>\<open>undefined\<close>, which is
  falsy.\<close>

record viewport_meta =
  vm_present :: bool
  vm_content :: "string option"
  vm_allowsZoom :: "bool option"

text \<open>\<open>res_setViewportSize\<close>: the message with which \<^verbatim>\<open>page.setViewportSize\<close> rejects for
  a width and a height, if it does.\<close>

record responsive_page =
  res_setViewportSize :: "nat \<Rightarrow> nat \<Rightarrow> string option"
  res_overflowChecks :: "string + overflow_checks"
  res_viewportMeta :: "string + viewport_meta"

definition runResponsiveChecks :: "responsive_page \<Rightarrow> nat \<times> nat \<Rightarrow> string + check_result list" where
  "runResponsiveChecks page viewport =
     (case res_setViewportSize page (fst viewport) (snd viewport) of
        Some msg \<Rightarrow> Inl msg
      | None \<Rightarrow>
     await (res_overflowChecks page) (\<lambda>overflowChecks.
     let results =
       [\<lparr>cid = ''no-horizontal-scroll'',
         cr_rule = ''Content MUST NOT require horizontal scrolling at 320px width'',
         status = (if \<not> oc_hasHorizontalScroll overflowChecks then Pass else Fail),
         message = (if oc_hasHorizontalScroll overflowChecks
                    then ''Horizontal overflow: content '' @ decimal (oc_docWidth overflowChecks) @
                         ''px vs viewport '' @ decimal (oc_viewWidth overflowChecks) @ ''px''
                    else ''No horizontal overflow at 320px''),
         cr_chapter = Some ''responsive'', cr_url = None\<rparr>] in
     await (res_viewportMeta page) (\<lambda>viewportMeta.
     let results = results @
       [\<lparr>cid = ''viewport-zoom'',
         cr_rule = ''Page MUST allow users to zoom on mobile (no user-scalable=no)'',
         status = (if vm_present viewportMeta \<and> vm_allowsZoom viewportMeta = Some True then Pass
                   else if vm_present viewportMeta then Warn else Info),
         message = (if vm_present viewportMeta
                    then (if vm_allowsZoom viewportMeta = Some True then ''Viewport allows zoom''
                          else ''Viewport may restrict zoom: '' @
                               (case vm_content viewportMeta of Some c \<Rightarrow> c | None \<Rightarrow> ''null''))
                    else ''No viewport meta tag''),
         cr_chapter = Some ''responsive'', cr_url = None\<rparr>] in
     Inr results)))"

subsection \<open>Chapter 5: multimedia\<close>

record video_checks =
  vc_total :: nat
  vc_noCaptions :: "nat list"
  vc_autoplay :: "nat list"

record audio_checks =
  ac_total :: nat
  ac_autoplay :: "nat list"

record multimedia_page =
  mm_videoChecks :: "string + video_checks"
  mm_audioChecks :: "string + audio_checks"
  mm_flashChecks :: "string + nat"

definition runMultimediaChecks :: "multimedia_page \<Rightarrow> string + check_result list" where
  "runMultimediaChecks page =
     await (mm_videoChecks page) (\<lambda>videoChecks.
     let results =
        (if 0 < vc_total videoChecks
         then [\<lparr>cid = ''video-captions'',
                 cr_rule = ''Prerecorded video MUST include synchronized captions'',
                 status = (if length (vc_noCaptions videoChecks) = 0 then Pass else Fail),
                 message = (if 0 < length (vc_noCaptions videoChecks)
                            then decimal (length (vc_noCaptions videoChecks)) @
                                 '' video(s) without caption track''
                            else ''All videos have caption tracks''),
                 cr_chapter = Some ''multimedia'', cr_url = None\<rparr>] @
              (if 0 < length (vc_autoplay videoChecks)
               then [\<lparr>cid = ''video-autoplay'',
                       cr_rule = ''Auto-play video (>5s) MUST have pause/stop mechanism'',
                       status = Warn,
                       message = decimal (length (vc_autoplay videoChecks)) @
                                 '' video(s) with autoplay - verify pause control exists'',
                       cr_chapter = Some ''multimedia'', cr_url = None\<rparr>]
               else [])
         else []) in
     await (mm_audioChecks page) (\<lambda>audioChecks.
     let results = results @
        (if 0 < length (ac_autoplay audioChecks)
         then [\<lparr>cid = ''audio-autoplay'',
                 cr_rule = ''Audio auto-playing >3s MUST have stop/pause/mute control'',
                 status = Warn,
                 message = decimal (length (ac_autoplay audioChecks)) @
                           '' audio element(s) with autoplay'',
                 cr_chapter = Some ''multimedia'', cr_url = None\<rparr>]
         else []) in
     await (mm_flashChecks page) (\<lambda>flashChecks.
     let results = results @
        (if 0 < flashChecks
         then [\<lparr>cid = ''flash-alternative'',
                 cr_rule = ''Flash/Silverlight SHOULD have HTML alternative'',
                 status = Warn,
                 message = decimal flashChecks @
                           '' Flash/plugin object(s) found - ensure accessible alternative'',
                 cr_chapter = Some ''multimedia'', cr_url = None\<rparr>]
         else []) in
     Inr results)))"

subsection \<open>Chapter 6: input methods\<close>

record focus_checks =
  fc_links :: nat
  fc_buttons :: nat
  fc_tabindexPositive :: nat

record touch_checks =
  tch_total :: nat
  tch_tooSmall :: "(nat \<times> nat \<times> nat) list"

record input_page =
  inp_focusChecks :: "string + focus_checks"
  inp_touchChecks :: "string + touch_checks"

definition runInputMethodChecks :: "input_page \<Rightarrow> string + check_result list" where
  "runInputMethodChecks page =
     await (inp_focusChecks page) (\<lambda>focusChecks.
     let results =
       [\<lparr>cid = ''tabindex-positive'',
         cr_rule = ''tabindex with positive values SHOULD NOT be used'',
         status = (if fc_tabindexPositive focusChecks = 0 then Pass else Warn),
         message = (if 0 < fc_tabindexPositive focusChecks
                    then decimal (fc_tabindexPositive focusChecks) @
                         '' element(s) with positive tabindex''
                    else ''No positive tabindex values''),
         cr_chapter = Some ''inputMethods'', cr_url = None\<rparr>] in
     await (inp_touchChecks page) (\<lambda>touchChecks.
     let results = results @
        (if 0 < length (tch_tooSmall touchChecks)
         then [\<lparr>cid = ''touch-target-size'',
                 cr_rule = ''Touch targets SHOULD be at least 44x44 pixels'',
                 status = Warn,
                 message = decimal (length (tch_tooSmall touchChecks)) @
                           '' interactive element(s) below 44x44px'',
                 cr_chapter = Some ''inputMethods'', cr_url = None\<rparr>]
         else []) in
     Inr results))"

subsection \<open>Chapter 7: forms\<close>

record form_checks =
  fm_total :: nat
  fm_missingLabel :: "(nat \<times> string) list"
  fm_placeholderOnly :: "nat list"
  fm_requiredNoIndicator :: "nat list"

record forms_page =
  frm_formChecks :: "string + form_checks"

definition runFormChecks :: "forms_page \<Rightarrow> string + check_result list" where
  "runFormChecks page =
     await (frm_formChecks page) (\<lambda>formChecks.
     let results =
        (if 0 < fm_total formChecks
         then [\<lparr>cid = ''form-labels'',
                 cr_rule = ''Form inputs MUST have programmatically-associated labels'',
                 status = (if length (fm_missingLabel formChecks) = 0 then Pass else Fail),
                 message = (if 0 < length (fm_missingLabel formChecks)
                            then decimal (length (fm_missingLabel formChecks)) @
                                 '' input(s) without proper label''
                            else ''All inputs have labels''),
                 cr_chapter = Some ''forms'', cr_url = None\<rparr>,
               \<lparr>cid = ''placeholder-not-only-label'',
                 cr_rule = ''Placeholder MUST NOT be the only label for inputs'',
                 status = (if length (fm_placeholderOnly formChecks) = 0 then Pass else Fail),
                 message = (if 0 < length (fm_placeholderOnly formChecks)
                            then decimal (length (fm_placeholderOnly formChecks)) @
                                 '' input(s) may use placeholder as only label''
                            else ''No placeholder-only labels''),
                 cr_chapter = Some ''forms'', cr_url = None\<rparr>]
         else []) in
     Inr results)"

subsection \<open>Chapter 8: dynamic updates\<close>

record dynamic_page =
  dyn_refreshMeta :: "string + bool"
  dyn_liveRegions :: "string + nat"

definition runDynamicChecks :: "dynamic_page \<Rightarrow> string + check_result list" where
  "runDynamicChecks page =
     await (dyn_refreshMeta page) (\<lambda>refreshMeta.
     let results =
       [\<lparr>cid = ''no-auto-refresh'', cr_rule = ''Page MUST NOT refresh or reload automatically'',
         status = (if \<not> refreshMeta then Pass else Fail),
         message = (if refreshMeta then ''Meta refresh found - may auto-reload page''
                    else ''No meta refresh''),
         cr_chapter = Some ''dynamicUpdates'', cr_url = None\<rparr>] in
     await (dyn_liveRegions page) (\<lambda>liveRegions.
     let results = results @
       [\<lparr>cid = ''dynamic-announcements'',
         cr_rule = ''Dynamic content changes SHOULD be announced (aria-live, etc.)'',
         status = Info,
         message = ''Found '' @ decimal liveRegions @
                   '' aria-live region(s) - verify status messages are announced'',
         cr_chapter = Some ''dynamicUpdates'', cr_url = None\<rparr>] in
     Inr results))"

subsection \<open>The adapters in \<^verbatim>\<open>runCustomChecks\<close>\<close>

text \<open>What the eight adapters read of one loaded page.\<close>

record document =
  semantics :: semantics_page
  images :: images_page
  visualDesign :: visual_page
  responsive :: responsive_page
  multimedia :: multimedia_page
  inputMethods :: input_page
  forms :: forms_page
  dynamicUpdates :: dynamic_page

text \<open>The \<^verbatim>\<open>chapters\<close> array of \<^verbatim>\<open>runCustomChecks\<close>, each adapter applied to the page: the
  responsive adapter is called with the viewport 320 by 568.\<close>

definition adapters :: "document \<Rightarrow> (string \<times> (string + check_result list)) list" where
  "adapters doc =
     [(''semantics'', runSemanticChecks (semantics doc)),
      (''images'', runImageChecks (images doc)),
      (''visualDesign'', runVisualChecks (visualDesign doc)),
      (''responsive'', runResponsiveChecks (responsive doc) (320, 568)),
      (''multimedia'', runMultimediaChecks (multimedia doc)),
      (''inputMethods'', runInputMethodChecks (inputMethods doc)),
      (''forms'', runFormChecks (forms doc)),
      (''dynamicUpdates'', runDynamicChecks (dynamicUpdates doc))]"

text \<open>A page whose checks are these adapters, run on a document.\<close>

definition adapter_page :: "page \<Rightarrow> document \<Rightarrow> page" where
  "adapter_page p doc =
     p\<lparr>checks := (\<lambda>chapterId. case map_of (adapters doc) chapterId of
                                 Some outcome \<Rightarrow> outcome
                               | None \<Rightarrow> Inr [])\<rparr>"

definition adapter_visit :: "string \<times> page \<times> document \<Rightarrow> string \<times> page" where
  "adapter_visit v = (case v of (u, p, doc) \<Rightarrow> (u, adapter_page p doc))"

section \<open>Remediation catalog (remediation-data.js)\<close>

text \<open>The snippets are display text; the dashes, the ellipsis and the multiplication
  sign of the source are written in ASCII here.\<close>

record remediation =
  wcag :: "string list"
  snippet :: string
  impact :: string
  effort :: string

definition REMEDIATION_MAP :: "(string \<times> remediation) list" where
  "REMEDIATION_MAP =
     [(''page-title-exists'',
        \<lparr>wcag = [''2.4.2''],
          snippet = ''<title>Descriptive page title - e.g. Home | Company Name</title>'',
          impact = ''high'', effort = ''simple''\<rparr>),
      (''html-lang'',
        \<lparr>wcag = [''3.1.1''],
          snippet = ''<html lang=\"en\">'',
          impact = ''high'', effort = ''simple''\<rparr>),
      (''landmarks-present'',
        \<lparr>wcag = [''1.3.1'', ''2.4.1''],
          snippet = ''<main>, <nav>, <header>, <footer>, <aside>, or role=\"main\", role=\"navigation\", etc.'',
          impact = ''medium'', effort = ''moderate''\<rparr>),
      (''single-main'',
        \<lparr>wcag = [''1.3.1'', ''2.4.1''],
          snippet = ''Use exactly one <main> or [role=\"main\"] for primary content.'',
          impact = ''medium'', effort = ''simple''\<rparr>),
      (''heading-structure'',
        \<lparr>wcag = [''1.3.1'', ''2.4.6''],
          snippet = ''Start with <h1>, then <h2>, <h3>... without skipping levels.'',
          impact = ''medium'', effort = ''moderate''\<rparr>),
      (''link-text'',
        \<lparr>wcag = [''2.4.4'', ''4.1.2''],
          snippet = ''<a href=\"...\">Descriptive text</a> - avoid empty links or \"click here\".'',
          impact = ''high'', effort = ''simple''\<rparr>),
      (''link-meaningful'',
        \<lparr>wcag = [''2.4.4''],
          snippet = ''Link text should describe the destination. Replace \"click here\" with e.g. \"Download the guide\".'',
          impact = ''medium'', effort = ''moderate''\<rparr>),
      (''skip-link'',
        \<lparr>wcag = [''2.4.1''],
          snippet = ''<a href=\"#main\" class=\"skip-link\">Skip to main content</a>'',
          impact = ''high'', effort = ''simple''\<rparr>),
      (''table-headers'',
        \<lparr>wcag = [''1.3.1''],
          snippet = ''<th scope=\"col\">Header</th> or <th scope=\"row\">Row label</th>'',
          impact = ''high'', effort = ''moderate''\<rparr>),
      (''list-markup'',
        \<lparr>wcag = [''1.3.1''],
          snippet = ''<ul><li>...</li></ul> or <ol><li>...</li></ol> for lists.'',
          impact = ''medium'', effort = ''simple''\<rparr>),
      (''iframe-titles'',
        \<lparr>wcag = [''4.1.2''],
          snippet = ''<iframe title=\"Description of iframe content\" src=\"...\">'',
          impact = ''high'', effort = ''simple''\<rparr>),
      (''unique-ids'',
        \<lparr>wcag = [''4.1.1''],
          snippet = ''Ensure every id attribute is unique within the page.'',
          impact = ''high'', effort = ''moderate''\<rparr>),
      (''img-alt'',
        \<lparr>wcag = [''1.1.1''],
          snippet = ''<img src=\"photo.jpg\" alt=\"Description of the image\">'',
          impact = ''high'', effort = ''simple''\<rparr>),
      (''img-alt-length'',
        \<lparr>wcag = [''1.1.1''],
          snippet = ''Keep alt concise (under ~125 chars). Use longdesc or surrounding text for long descriptions.'',
          impact = ''medium'', effort = ''simple''\<rparr>),
      (''svg-role'',
        \<lparr>wcag = [''1.1.1'', ''4.1.2''],
          snippet = ''<svg role=\"img\" aria-labelledby=\"chart-title\"> or role=\"presentation\" for decorative.'',
          impact = ''high'', effort = ''simple''\<rparr>),
      (''svg-accessible-name'',
        \<lparr>wcag = [''1.1.1''],
          snippet = ''<svg aria-label=\"Chart showing...\" > or <title> inside <svg>.'',
          impact = ''high'', effort = ''simple''\<rparr>),
      (''canvas-alt'',
        \<lparr>wcag = [''1.1.1''],
          snippet = ''<canvas id=\"c\">...</canvas> + accessible alternative (text or link).'',
          impact = ''high'', effort = ''moderate''\<rparr>),
      (''image-map-alt'',
        \<lparr>wcag = [''1.1.1''],
          snippet = ''<area alt=\"Region description\" shape=\"rect\" coords=\"...\">'',
          impact = ''high'', effort = ''moderate''\<rparr>),
      (''link-differentiation'',
        \<lparr>wcag = [''1.4.1''],
          snippet = ''Don't rely on color alone. Add underline, icon, or text (e.g. \"opens in new tab\").'',
          impact = ''medium'', effort = ''simple''\<rparr>),
      (''focus-indicator'',
        \<lparr>wcag = [''2.4.7''],
          snippet = '':focus { outline: 2px solid currentColor; outline-offset: 2px; }'',
          impact = ''high'', effort = ''simple''\<rparr>),
      (''no-horizontal-scroll'',
        \<lparr>wcag = [''1.4.10''],
          snippet = ''Use max-width: 100%, overflow-wrap: break-word. Avoid fixed pixel widths.'',
          impact = ''medium'', effort = ''moderate''\<rparr>),
      (''viewport-zoom'',
        \<lparr>wcag = [''1.4.4''],
          snippet = ''Ensure user-scalable=yes (or omit) in <meta name=\"viewport\">.'',
          impact = ''high'', effort = ''simple''\<rparr>),
      (''video-captions'',
        \<lparr>wcag = [''1.2.2''],
          snippet = ''<track kind=\"captions\" src=\"captions.vtt\" srclang=\"en\">'',
          impact = ''high'', effort = ''complex''\<rparr>),
      (''video-autoplay'',
        \<lparr>wcag = [''1.4.2''],
          snippet = ''Don't autoplay with sound, or provide pause/mute controls.'',
          impact = ''medium'', effort = ''simple''\<rparr>),
      (''audio-autoplay'',
        \<lparr>wcag = [''1.4.2''],
          snippet = ''Avoid autoplay. If needed, provide immediate pause control.'',
          impact = ''medium'', effort = ''simple''\<rparr>),
      (''flash-alternative'',
        \<lparr>wcag = [''1.1.1''],
          snippet = ''Provide HTML alternative or ensure content is accessible without Flash.'',
          impact = ''high'', effort = ''complex''\<rparr>),
      (''tabindex-positive'',
        \<lparr>wcag = [''2.4.3''],
          snippet = ''Remove tabindex > 0. Use natural DOM order or tabindex=\"0\" for focusable widgets.'',
          impact = ''high'', effort = ''simple''\<rparr>),
      (''touch-target-size'',
        \<lparr>wcag = [''2.5.5''],
          snippet = ''Min 44x44px touch targets with spacing. padding or min-height/min-width.'',
          impact = ''medium'', effort = ''moderate''\<rparr>),
      (''form-labels'',
        \<lparr>wcag = [''3.3.2'', ''4.1.2''],
          snippet = ''<label for=\"id\">Label</label><input id=\"id\"> or aria-label=\"Label\"'',
          impact = ''high'', effort = ''simple''\<rparr>),
      (''placeholder-not-only-label'',
        \<lparr>wcag = [''3.3.2''],
          snippet = ''Use <label> or aria-label. Placeholder is a hint, not a replacement.'',
          impact = ''high'', effort = ''simple''\<rparr>),
      (''no-auto-refresh'',
        \<lparr>wcag = [''2.2.2''],
          snippet = ''Avoid auto-refresh. If required, allow user to extend time.'',
          impact = ''medium'', effort = ''moderate''\<rparr>),
      (''dynamic-announcements'',
        \<lparr>wcag = [''4.1.3''],
          snippet = ''Use aria-live=\"polite\" or aria-live=\"assertive\" on live regions.'',
          impact = ''high'', effort = ''moderate''\<rparr>),
      (''page-load'',
        \<lparr>wcag = [],
          snippet = ''Check URL, network, bot protection, and server availability.'',
          impact = ''high'', effort = ''complex''\<rparr>)]"

text \<open>An entry written \<^verbatim>\<open>REMEDIATION_MAP['k']\<close> holds whatever that read returns:
  the entry, or \<^verbatim>\<open>undefined\<close> (\<open>None\<close>) if there were none.\<close>

definition AXE_REMEDIATION :: "(string \<times> remediation option) list" where
  "AXE_REMEDIATION =
     [(''document-title'', map_of REMEDIATION_MAP ''page-title-exists''),
      (''html-has-lang'', map_of REMEDIATION_MAP ''html-lang''),
      (''image-alt'', map_of REMEDIATION_MAP ''img-alt''),
      (''label'', map_of REMEDIATION_MAP ''form-labels''),
      (''link-name'', map_of REMEDIATION_MAP ''link-text''),
      (''button-name'',
        Some \<lparr>wcag = [''2.1.1'', ''4.1.2''],
          snippet = ''<button>Label</button> or aria-label=\"Label\"'',
          impact = ''high'', effort = ''simple''\<rparr>),
      (''color-contrast'',
        Some \<lparr>wcag = [''1.4.3''],
          snippet = ''Increase contrast to 4.5:1 (normal) or 3:1 (large). Use WebAIM contrast checker.'',
          impact = ''high'', effort = ''moderate''\<rparr>),
      (''landmark-one-main'', map_of REMEDIATION_MAP ''single-main''),
      (''region'',
        Some \<lparr>wcag = [''1.3.1'', ''2.4.1''],
          snippet = ''Use landmarks: main, nav, header, footer, aside.'',
          impact = ''medium'', effort = ''moderate''\<rparr>),
      (''landmark-unique'',
        Some \<lparr>wcag = [''1.3.1''],
          snippet = ''Give landmarks unique aria-label if multiple of same type.'',
          impact = ''medium'', effort = ''simple''\<rparr>),
      (''frame-title'', map_of REMEDIATION_MAP ''iframe-titles''),
      (''duplicate-id'', map_of REMEDIATION_MAP ''unique-ids''),
      (''heading-order'', map_of REMEDIATION_MAP ''heading-structure''),
      (''list'', map_of REMEDIATION_MAP ''list-markup''),
      (''tabindex'', map_of REMEDIATION_MAP ''tabindex-positive''),
      (''focus-order-semantics'',
        Some \<lparr>wcag = [''2.4.3''],
          snippet = ''Ensure DOM order matches visual order. Avoid positive tabindex.'',
          impact = ''medium'', effort = ''moderate''\<rparr>),
      (''meta-viewport'', map_of REMEDIATION_MAP ''viewport-zoom''),
      (''aria-valid-attr'',
        Some \<lparr>wcag = [''4.1.2''],
          snippet = ''Use only valid ARIA attributes. See MDN ARIA reference.'',
          impact = ''high'', effort = ''simple''\<rparr>),
      (''aria-valid-attr-value'',
        Some \<lparr>wcag = [''4.1.2''],
          snippet = ''Ensure ARIA attribute values are valid (e.g. aria-expanded=\"true\" or \"false\").'',
          impact = ''high'', effort = ''simple''\<rparr>),
      (''aria-required-attr'',
        Some \<lparr>wcag = [''4.1.2''],
          snippet = ''Add all required ARIA attributes for the role (e.g. combobox needs aria-expanded).'',
          impact = ''high'', effort = ''moderate''\<rparr>),
      (''input-button-name'', map_of REMEDIATION_MAP ''form-labels''),
      (''form-field-multiple-labels'',
        Some \<lparr>wcag = [''3.3.2''],
          snippet = ''Each form control should have one associated label.'',
          impact = ''medium'', effort = ''simple''\<rparr>)]"

text \<open>A JavaScript number as far as the catalog functions produce one.\<close>

datatype js_number = Num int | NaN

definition IMPACT_ORDER :: "(string \<times> int) list" where
  "IMPACT_ORDER = [(''high'', 0), (''medium'', 1), (''low'', 2)]"

definition EFFORT_ORDER :: "(string \<times> int) list" where
  "EFFORT_ORDER = [(''simple'', 0), (''moderate'', 1), (''complex'', 2)]"

text \<open>What \<^verbatim>\<open>getRemediation\<close> returns: an entry object, or the member of
  \<^verbatim>\<open>Object.prototype\<close> that the read of a catalog found under the given name.\<close>

datatype remediation_value = Entry remediation | Object_prototype_member string

text \<open>\<^verbatim>\<open>REMEDIATION_MAP[checkId] || AXE_REMEDIATION[axeRuleId] || {...}\<close>. An argument
  that is \<^verbatim>\<open>undefined\<close> is read as the key \<^verbatim>\<open>"undefined"\<close>.\<close>

definition getRemediation :: "string \<Rightarrow> string \<Rightarrow> remediation_value" where
  "getRemediation checkId axeRuleId =
     (case js_get REMEDIATION_MAP checkId of
        Own r \<Rightarrow> Entry r
      | Inherited \<Rightarrow> Object_prototype_member checkId
      | Undefined \<Rightarrow>
     (case js_get AXE_REMEDIATION axeRuleId of
        Own (Some r) \<Rightarrow> Entry r
      | Inherited \<Rightarrow> Object_prototype_member axeRuleId
      | _ \<Rightarrow>
          Entry \<lparr>wcag = [],
                 snippet = ''Review the issue and apply appropriate fix. See W3C WCAG guidelines.'',
                 impact = ''medium'',
                 effort = ''moderate''\<rparr>))"

text \<open>A fix-order item: the fields that the priority score and the phase filters read.\<close>

record fix_order_item =
  rule :: string
  item_impact :: string
  item_effort :: string

text \<open>\<^verbatim>\<open>ORDER[key] ?? 1\<close>: only \<^verbatim>\<open>undefined\<close> is replaced by 1. For a key that names a
  member of \<^verbatim>\<open>Object.prototype\<close> the read gives that member.\<close>

datatype js_rank = Rank int | Member string

definition rank :: "(string \<times> int) list \<Rightarrow> string \<Rightarrow> js_rank" where
  "rank order k = (case js_get order k of Own n \<Rightarrow> Rank n | Inherited \<Rightarrow> Member k | Undefined \<Rightarrow> Rank 1)"

text \<open>A number in a string, and \<^verbatim>\<open>String(m)\<close> for the member \<open>m\<close> of \<^verbatim>\<open>Object.prototype\<close>
  with a given name: the members are native functions, named as their key but for
  \<^verbatim>\<open>constructor\<close>, which is the function \<^verbatim>\<open>Object\<close>; \<^verbatim>\<open>__proto__\<close> is the prototype
  object itself.\<close>

fun number_text :: "js_number \<Rightarrow> string" where
  "number_text (Num i) = (if i < 0 then ''-'' @ decimal (nat (- i)) else decimal (nat i))"
| "number_text NaN = ''NaN''"

definition member_text :: "string \<Rightarrow> string" where
  "member_text k =
     (if k = ''__proto__'' then ''[object Object]''
      else ''function '' @ (if k = ''constructor'' then ''Object'' else k) @ ''() { [native code] }'')"

text \<open>What \<^verbatim>\<open>imp * 10 + eff\<close> gives: a number, or, when \<open>eff\<close> is a member of
  \<^verbatim>\<open>Object.prototype\<close>, the string that \<^verbatim>\<open>+\<close> joins from the number \<open>imp * 10\<close> and the
  text of that member; \<open>Joined n k\<close> is that string for the number \<open>n\<close> and the member
  named \<open>k\<close>. A product with a member is \<^verbatim>\<open>NaN\<close>.\<close>

datatype js_value = Number js_number | Joined js_number string

fun value_text :: "js_value \<Rightarrow> string" where
  "value_text (Number n) = number_text n"
| "value_text (Joined n k) = number_text n @ member_text k"

definition fixOrderScore :: "fix_order_item \<Rightarrow> js_value" where
  "fixOrderScore item =
     (let imp = rank IMPACT_ORDER (item_impact item);
          eff = rank EFFORT_ORDER (item_effort item);
          imp10 = (case imp of Rank i \<Rightarrow> Num (i * 10) | Member m \<Rightarrow> NaN)
      in case eff of
           Rank e \<Rightarrow> Number (case imp10 of Num n \<Rightarrow> Num (n + e) | NaN \<Rightarrow> NaN)
         | Member m \<Rightarrow> Joined imp10 m)"

text \<open>The order of two strings by their code units.\<close>

fun str_less :: "string \<Rightarrow> string \<Rightarrow> bool" where
  "str_less [] [] = False"
| "str_less [] (y # ys) = True"
| "str_less (x # xs) [] = False"
| "str_less (x # xs) (y # ys) = ((of_char x :: nat) < of_char y \<or> (x = y \<and> str_less xs ys))"

text \<open>\<^verbatim>\<open>a < b\<close> on these values: two strings are compared as strings; otherwise both
  sides are read as numbers, a joined string reads as \<^verbatim>\<open>NaN\<close>, and the comparison is
  false as soon as one side is \<^verbatim>\<open>NaN\<close>.\<close>

fun js_less :: "js_value \<Rightarrow> js_value \<Rightarrow> bool" where
  "js_less (Number (Num a)) (Number (Num b)) = (a < b)"
| "js_less (Joined a k) (Joined b l) = str_less (value_text (Joined a k)) (value_text (Joined b l))"
| "js_less _ _ = False"


section \<open>Client presentation: the three phases\<close>

text \<open>\<^verbatim>\<open>[...new Map(items.map((i) => [i.rule, i])).values()]\<close>: one item per rule, at the
  position of the rule's first occurrence, holding the rule's last item.\<close>

definition uniqueByRule :: "fix_order_item list \<Rightarrow> fix_order_item list" where
  "uniqueByRule items = map snd (foldl (\<lambda>m i. assoc_set m (rule i) i) [] items)"

text \<open>The three filter predicates of \<^verbatim>\<open>generateClientPresentation\<close>.\<close>

definition quickWins_filter :: "fix_order_item \<Rightarrow> bool" where
  "quickWins_filter i = (item_impact i = ''high'' \<and> item_effort i = ''simple'')"

definition mediumEffort_filter :: "fix_order_item \<Rightarrow> bool" where
  "mediumEffort_filter i =
     ((item_impact i = ''high'' \<and> item_effort i \<noteq> ''simple'') \<or>
      (item_impact i = ''medium'' \<and> item_effort i = ''simple''))"

definition longTerm_filter :: "fix_order_item \<Rightarrow> bool" where
  "longTerm_filter i =
     (item_effort i = ''complex'' \<or>
      (item_impact i = ''medium'' \<and> item_effort i \<noteq> ''simple'') \<or>
      item_impact i = ''low'')"

definition quickWins :: "fix_order_item list \<Rightarrow> fix_order_item list" where
  "quickWins fixOrderItems = uniqueByRule (filter quickWins_filter fixOrderItems)"

definition mediumEffort :: "fix_order_item list \<Rightarrow> fix_order_item list" where
  "mediumEffort fixOrderItems = uniqueByRule (filter mediumEffort_filter fixOrderItems)"

definition longTerm :: "fix_order_item list \<Rightarrow> fix_order_item list" where
  "longTerm fixOrderItems = uniqueByRule (filter longTerm_filter fixOrderItems)"


section \<open>Disability statistics (generate-report.js)\<close>

definition DISABILITY_MAP :: "(string \<times> string list) list" where
  "DISABILITY_MAP =
     [(''page-title-exists'', [''Blindness'', ''Low Vision'', ''Reading Disabilities'', ''Cognitive Disabilities'']),
      (''html-lang'', [''Blindness'', ''Reading Disabilities'', ''Cognitive Disabilities'']),
      (''landmarks-present'', [''Blindness'', ''Low Vision'', ''Cognitive Disabilities'']),
      (''single-main'', [''Blindness'', ''Low Vision'', ''Cognitive Disabilities'']),
      (''heading-structure'', [''Blindness'', ''Low Vision'', ''Reading Disabilities'', ''Cognitive Disabilities'']),
      (''link-text'', [''Blindness'', ''Low Vision'', ''Reading Disabilities'']),
      (''link-meaningful'', [''Blindness'', ''Low Vision'', ''Reading Disabilities'', ''Cognitive Disabilities'']),
      (''skip-link'', [''Blindness'', ''Dexterity/Motor Disabilities'']),
      (''table-headers'', [''Blindness'', ''Low Vision'', ''Reading Disabilities'', ''Cognitive Disabilities'']),
      (''list-markup'', [''Blindness'', ''Low Vision'', ''Reading Disabilities'', ''Cognitive Disabilities'']),
      (''iframe-titles'', [''Blindness'', ''Low Vision'', ''Cognitive Disabilities'']),
      (''unique-ids'', [''Blindness'', ''Cognitive Disabilities'']),
      (''img-alt'', [''Blindness'', ''Low Vision'', ''Deafblindness'']),
      (''img-alt-length'', [''Blindness'', ''Low Vision'', ''Deafblindness'', ''Cognitive Disabilities'']),
      (''svg-role'', [''Blindness'', ''Low Vision'', ''Deafblindness'']),
      (''svg-accessible-name'', [''Blindness'', ''Low Vision'', ''Deafblindness'']),
      (''canvas-alt'', [''Blindness'', ''Low Vision'', ''Deafblindness'']),
      (''image-map-alt'', [''Blindness'', ''Low Vision'', ''Deafblindness'']),
      (''link-differentiation'', [''Colorblindness'', ''Low Vision'']),
      (''focus-indicator'', [''Low Vision'', ''Dexterity/Motor Disabilities'', ''Blindness'']),
      (''no-horizontal-scroll'', [''Low Vision'', ''Dexterity/Motor Disabilities'']),
      (''viewport-zoom'', [''Low Vision'', ''Dexterity/Motor Disabilities'']),
      (''video-captions'', [''Deafness and Hard-of-Hearing'', ''Deafblindness'']),
      (''video-autoplay'', [''Deafness and Hard-of-Hearing'', ''Cognitive Disabilities'']),
      (''audio-autoplay'', [''Deafness and Hard-of-Hearing'']),
      (''flash-alternative'', [''Blindness'', ''Deafness and Hard-of-Hearing'']),
      (''tabindex-positive'', [''Dexterity/Motor Disabilities'', ''Blindness'']),
      (''touch-target-size'', [''Dexterity/Motor Disabilities'', ''Low Vision'']),
      (''form-labels'', [''Blindness'', ''Cognitive Disabilities'', ''Reading Disabilities'']),
      (''placeholder-not-only-label'', [''Blindness'', ''Cognitive Disabilities'', ''Reading Disabilities'']),
      (''no-auto-refresh'', [''Cognitive Disabilities'', ''Dexterity/Motor Disabilities'']),
      (''dynamic-announcements'', [''Blindness'', ''Cognitive Disabilities'']),
      (''page-load'', [''Various''])]"

definition ALL_DISABILITIES :: "string list" where
  "ALL_DISABILITIES =
     [''Blindness'', ''Low Vision'', ''Colorblindness'', ''Deafness and Hard-of-Hearing'', ''Deafblindness'', ''Dexterity/Motor Disabilities'', ''Speech Disabilities'', ''Cognitive Disabilities'', ''Reading Disabilities'', ''Seizure Disorders'', ''Various'']"

record checklist_item =
  item_text :: string
  disabilities :: "string list option"

definition MANUAL_VERIFICATION_ITEMS :: "checklist_item list" where
  "MANUAL_VERIFICATION_ITEMS =
     [\<lparr>item_text = ''Page title is unique and describes the page or result of the user action.'',
        disabilities = Some [''Blindness'', ''Low Vision'', ''Reading Disabilities'', ''Cognitive Disabilities'']\<rparr>,
      \<lparr>item_text = ''Link purpose can be determined from the link text alone (no \"click here\").'',
        disabilities = Some [''Blindness'', ''Low Vision'', ''Reading Disabilities'', ''Cognitive Disabilities'']\<rparr>,
      \<lparr>item_text = ''Alternative text is meaningful and concise, not just present.'',
        disabilities = Some [''Blindness'', ''Low Vision'', ''Deafblindness'']\<rparr>,
      \<lparr>item_text = ''Color contrast meets 4.5:1 for normal text, 3:1 for large text and UI.'',
        disabilities = Some [''Low Vision'', ''Colorblindness'']\<rparr>,
      \<lparr>item_text = ''Information is not conveyed by color alone.'',
        disabilities = Some [''Colorblindness'', ''Low Vision'']\<rparr>,
      \<lparr>item_text = ''Focus order is logical and matches visual order; no positive tabindex.'',
        disabilities = Some [''Blindness'', ''Dexterity/Motor Disabilities'']\<rparr>,
      \<lparr>item_text = ''All interactive elements are keyboard accessible and have visible focus.'',
        disabilities = Some [''Blindness'', ''Dexterity/Motor Disabilities'', ''Low Vision'']\<rparr>,
      \<lparr>item_text = ''Touch targets are at least 44x44px with spacing between them.'',
        disabilities = Some [''Dexterity/Motor Disabilities'', ''Low Vision'']\<rparr>,
      \<lparr>item_text = ''Form error messages are associated with fields and announced to screen readers.'',
        disabilities = Some [''Blindness'', ''Cognitive Disabilities'', ''Reading Disabilities'']\<rparr>,
      \<lparr>item_text = ''Dynamic content changes are announced (e.g. aria-live) where appropriate.'',
        disabilities = Some [''Blindness'', ''Cognitive Disabilities'']\<rparr>,
      \<lparr>item_text = ''No content flashes more than 3 times per second (seizure risk).'',
        disabilities = Some [''Seizure Disorders'']\<rparr>,
      \<lparr>item_text = ''Video has captions and, if needed, audio description; audio has transcript.'',
        disabilities = Some [''Deafness and Hard-of-Hearing'', ''Deafblindness'']\<rparr>,
      \<lparr>item_text = ''Motion/animation can be paused or disabled (e.g. prefers-reduced-motion).'',
        disabilities = Some [''Cognitive Disabilities'']\<rparr>]"

definition ASSISTIVE_TECH_ITEMS :: "checklist_item list" where
  "ASSISTIVE_TECH_ITEMS =
     [\<lparr>item_text = ''Screen reader (NVDA, JAWS, or VoiceOver): Navigate by headings and landmarks; all content reachable.'',
        disabilities = Some [''Blindness'', ''Low Vision'']\<rparr>,
      \<lparr>item_text = ''Screen reader: Form fields have announced labels and errors; buttons/links have clear names.'',
        disabilities = Some [''Blindness'', ''Low Vision'']\<rparr>,
      \<lparr>item_text = ''Screen reader: No unexpected context changes on focus; dynamic updates are announced.'',
        disabilities = Some [''Blindness'', ''Cognitive Disabilities'']\<rparr>,
      \<lparr>item_text = ''Keyboard only: Tab through every interactive element; no keyboard traps.'',
        disabilities = Some [''Blindness'', ''Dexterity/Motor Disabilities'']\<rparr>,
      \<lparr>item_text = ''Keyboard only: Focus order matches visual order; focus is always visible.'',
        disabilities = Some [''Blindness'', ''Dexterity/Motor Disabilities'', ''Low Vision'']\<rparr>,
      \<lparr>item_text = ''Keyboard only: All actions (menus, modals, carousels) work with keyboard alone.'',
        disabilities = Some [''Blindness'', ''Dexterity/Motor Disabilities'']\<rparr>,
      \<lparr>item_text = ''Zoom: At 200% zoom, content reflows; no horizontal scrolling; text still readable.'',
        disabilities = Some [''Low Vision'']\<rparr>,
      \<lparr>item_text = ''Zoom: No content clipped or overlapping at 200%.'',
        disabilities = Some [''Low Vision'']\<rparr>,
      \<lparr>item_text = ''Reduce motion: Animations respect prefers-reduced-motion or can be paused.'',
        disabilities = Some [''Cognitive Disabilities'']\<rparr>,
      \<lparr>item_text = ''Mobile/touch: All features work with touch; targets are large enough; no gesture-only actions.'',
        disabilities = Some [''Dexterity/Motor Disabilities'', ''Low Vision'']\<rparr>]"

text \<open>\<^verbatim>\<open>if (disabilityStats[d] !== undefined) disabilityStats[d]++\<close>. The statistics are
  an object literal as well: for a name inherited from \<^verbatim>\<open>Object.prototype\<close> the guard
  holds, and the increment stores \<^verbatim>\<open>NaN\<close> as a new own property.\<close>

fun incr :: "js_number \<Rightarrow> js_number" where
  "incr (Num n) = Num (n + 1)"
| "incr NaN = NaN"

definition bump :: "(string \<times> js_number) list \<Rightarrow> string \<Rightarrow> (string \<times> js_number) list" where
  "bump stats d =
     (case js_get stats d of
        Own n \<Rightarrow> js_set stats d (incr n)
      | Inherited \<Rightarrow> js_set stats d NaN
      | Undefined \<Rightarrow> stats)"

text \<open>\<^verbatim>\<open>(DISABILITY_MAP[r.id] || ['Various']).forEach(...)\<close>: an inherited member has no
  \<^verbatim>\<open>forEach\<close>.\<close>

definition count_result ::
  "(string \<times> js_number) list \<Rightarrow> check_result \<Rightarrow> js_error + (string \<times> js_number) list" where
  "count_result stats r =
     (case js_get DISABILITY_MAP (cid r) of
        Own ds \<Rightarrow> Inr (foldl bump stats ds)
      | Inherited \<Rightarrow>
          Inl (TypeError ''(DISABILITY_MAP[r.id] || [\"Various\"]).forEach is not a function'')
      | Undefined \<Rightarrow> Inr (foldl bump stats [''Various'']))"

definition count_item :: "(string \<times> js_number) list \<Rightarrow> checklist_item \<Rightarrow> (string \<times> js_number) list" where
  "count_item stats item = foldl bump stats (or_empty (disabilities item))"

text \<open>\<^verbatim>\<open>disabilityStats['Various'] = (disabilityStats['Various'] || 0) + count\<close> with
  \<^verbatim>\<open>count = (data.violations?.length || 0) * Math.max(1, reportData.urls?.length || 1)\<close>.
  \<^verbatim>\<open>0\<close> and \<^verbatim>\<open>NaN\<close> are falsy. The counts are integers far below \<open>2\<^sup>5\<^sup>3\<close>, where the
  arithmetic of JavaScript numbers is exact.\<close>

definition count_axe ::
  "nat \<Rightarrow> (string \<times> js_number) list \<Rightarrow> axe_data \<Rightarrow> (string \<times> js_number) list" where
  "count_axe urlCount stats data =
     js_set stats ''Various''
       (Num ((case js_get stats ''Various'' of Own (Num n) \<Rightarrow> n | _ \<Rightarrow> 0)
             + int (length (or_empty (data_violations data)) * max 1 (if urlCount = 0 then 1 else urlCount))))"

text \<open>The part of \<^verbatim>\<open>generateReport\<close> that fills \<^verbatim>\<open>disabilityStats\<close>.
  \<^verbatim>\<open>Object.values(reportData.axeResults)\<close> lists the values in insertion order.\<close>

definition disabilityStats :: "report \<Rightarrow> js_error + (string \<times> js_number) list" where
  "disabilityStats reportData =
     (case forEach count_result (map (\<lambda>d. (d, Num 0)) ALL_DISABILITIES) (customResults reportData) of
        Inl e \<Rightarrow> Inl e
      | Inr stats \<Rightarrow>
          Inr (foldl (count_axe (length (urls reportData)))
                 (foldl count_item stats (MANUAL_VERIFICATION_ITEMS @ ASSISTIVE_TECH_ITEMS))
                 (map snd (axeResults reportData))))"


section \<open>Score (generate-report.js)\<close>

text \<open>
  JavaScript numbers are IEEE 754 binary64 values, and \<^verbatim>\<open>/\<close> and \<^verbatim>\<open>*\<close> return the exact
  result rounded to the nearest such value, ties to the even significand. A finite
  non-negative binary64 value is a rational \<open>m * 2\<^sup>e\<close> with \<open>m < 2\<^sup>5\<^sup>3\<close>; \<open>fl\<close> is that
  rounding for a non-negative rational in the normal range (between \<open>2\<^sup>-\<^sup>1\<^sup>0\<^sup>2\<^sup>2\<close> and
  \<open>2\<^sup>1\<^sup>0\<^sup>2\<^sup>4\<close>), where the score computation stays: the significand is scaled into
  \<open>[2\<^sup>5\<^sup>2, 2\<^sup>5\<^sup>3)\<close> and rounded to an integer.
\<close>

text \<open>The number of binary digits of a natural number.\<close>

fun bitlen :: "nat \<Rightarrow> nat" where
  "bitlen n = (if n = 0 then 0 else Suc (bitlen (n div 2)))"

text \<open>\<open>\<lfloor>log\<^sub>2 q\<rfloor>\<close> for \<open>q > 0\<close>.\<close>

definition ilog2 :: "rat \<Rightarrow> int" where
  "ilog2 q = (if 1 \<le> q then int (bitlen (nat \<lfloor>q\<rfloor>)) - 1
              else - int (bitlen (nat (\<lceil>1 / q\<rceil> - 1))))"

definition round_half_even :: "rat \<Rightarrow> int" where
  "round_half_even x =
     (if x - of_int \<lfloor>x\<rfloor> < 1 / 2 then \<lfloor>x\<rfloor>
      else if 1 / 2 < x - of_int \<lfloor>x\<rfloor> then \<lfloor>x\<rfloor> + 1
      else if even \<lfloor>x\<rfloor> then \<lfloor>x\<rfloor> else \<lfloor>x\<rfloor> + 1)"

definition fl :: "rat \<Rightarrow> rat" where
  "fl q = (if q \<le> 0 then 0
           else of_int (round_half_even (q / 2 powi (ilog2 q - 52))) * 2 powi (ilog2 q - 52))"

text \<open>\<^verbatim>\<open>Math.round\<close>: the nearest integer, a tie going up.\<close>

definition Math_round :: "rat \<Rightarrow> int" where
  "Math_round x = \<lfloor>x + 1 / 2\<rfloor>"

text \<open>\<^verbatim>\<open>total = pass + fail + warn + totalAxeViolations\<close> and
  \<^verbatim>\<open>score = total === 0 ? 100 : Math.round((pass / total) * 100)\<close>, on counts that are
  non-negative integers.\<close>

definition score :: "nat \<Rightarrow> nat \<Rightarrow> nat \<Rightarrow> nat \<Rightarrow> int" where
  "score n_pass n_fail n_warn n_violations =
     (let total = fl (fl (fl (of_nat n_pass + of_nat n_fail) + of_nat n_warn) + of_nat n_violations)
      in if total = 0 then 100 else Math_round (fl (fl (of_nat n_pass / total) * 100)))"

text \<open>\<^verbatim>\<open>scoreClamp = Math.max(0, Math.min(100, score))\<close>.\<close>

definition scoreClamp :: "nat \<Rightarrow> nat \<Rightarrow> nat \<Rightarrow> nat \<Rightarrow> int" where
  "scoreClamp n_pass n_fail n_warn n_violations =
     max 0 (min 100 (score n_pass n_fail n_warn n_violations))"

text \<open>The score that \<^verbatim>\<open>generateReport\<close> shows for a report: the counts of its summary
  and the violations of all its audit results.\<close>

definition totalAxeViolations :: "report \<Rightarrow> nat" where
  "totalAxeViolations reportData =
     foldl (\<lambda>sum r. sum + length (or_empty (data_violations r))) 0
       (map snd (axeResults reportData))"

definition report_score :: "report \<Rightarrow> int" where
  "report_score reportData =
     scoreClamp (pass (summary reportData)) (fail (summary reportData))
       (warn (summary reportData)) (totalAxeViolations reportData)"


section \<open>Notions used to state the properties\<close>

text \<open>A record is classified into a chapter when the classifier returns a list that
  contains the chapter.\<close>

definition classified_into :: "string \<Rightarrow> axe_record \<Rightarrow> bool" where
  "classified_into ch v = (case categorizeAxeViolation v of Inr cs \<Rightarrow> ch \<in> set cs | Inl e \<Rightarrow> False)"

text \<open>The chapters that the tag table gives for a list of tags.\<close>

definition matched :: "string list \<Rightarrow> string set" where
  "matched ts = (\<Union>t \<in> set ts. case map_of AXE_TAG_TO_CHAPTER t of Some ch \<Rightarrow> set ch | None \<Rightarrow> {})"

text \<open>The synthetic result of the catch block.\<close>
definition page_load_result :: "string \<Rightarrow> string \<Rightarrow> check_result" where
  "page_load_result u msg =
     \<lparr>cid = ''page-load'', cr_rule = ''Page load'', status = Fail, message = msg,
      cr_chapter = None, cr_url = Some u\<rparr>"

text \<open>The error, if any, with which a visit ends before its URL is recorded.\<close>
definition load_error :: "string \<times> page \<Rightarrow> string option" where
  "load_error visit =
     (case visit of (u, p) \<Rightarrow>
      (case goto p of
         Some msg \<Rightarrow> Some msg
       | None \<Rightarrow>
      (case analyze p of
         Inl msg \<Rightarrow> Some msg
       | Inr results \<Rightarrow>
      (case runAxeScan results u of
         Inl e \<Rightarrow> Some (err_message e)
       | Inr axeData \<Rightarrow> None))))"

text \<open>The error, if any, that a visit meets after its results were recorded.\<close>
definition late_error :: "string \<times> page \<Rightarrow> string option" where
  "late_error visit =
     (case visit of (u, p) \<Rightarrow>
      (case load_error (u, p) of
         Some msg \<Rightarrow> None
       | None \<Rightarrow>
      (case analyze p of
         Inl msg \<Rightarrow> None
       | Inr results \<Rightarrow>
           if 0 < length (or_empty (res_violations results)) \<or>
              list_ex (\<lambda>r. status r = Fail \<or> status r = Warn) (runCustomChecks p u)
           then mkdir_error p else None)))"

text \<open>The results that one visit appends to \<open>customResults\<close>.\<close>
definition visit_results :: "string \<times> page \<Rightarrow> check_result list" where
  "visit_results visit =
     (case load_error visit of
        Some msg \<Rightarrow> [page_load_result (fst visit) msg]
      | None \<Rightarrow> runCustomChecks (snd visit) (fst visit) @
          (case late_error visit of Some msg \<Rightarrow> [page_load_result (fst visit) msg] | None \<Rightarrow> []))"

text \<open>A result that carries the chapter key \<open>c\<close> and is not the synthetic result of the
  visit.\<close>

definition tagged :: "string \<Rightarrow> check_result \<Rightarrow> bool" where
  "tagged c r = (cr_chapter r = Some c \<and> cid r \<noteq> ''page-load'')"

text \<open>A page of a small site as the adapters read it: the adapter of chapter 7 is
  interrupted by a navigation, the others return.\<close>

definition example_document :: document where
  "example_document =
     \<lparr>semantics =
        \<lparr>sem_title = Inr ''Example Domain'', sem_htmlLang = Inr (Some ''en''),
         sem_landmarkCount = Inr 0, sem_mainCount = Inr 0,
         sem_headingStructure = Inr \<lparr>hs_total = 1, hs_skips = 0, hs_h1Count = 1\<rparr>,
         sem_linkChecks = Inr \<lparr>lc_total = 1, lc_emptyText = 0, lc_genericText = 0\<rparr>,
         sem_skipLink = Inr False,
         sem_tableChecks = Inr \<lparr>tc_total = 0, tc_noTh = 0, tc_noCaption = 0\<rparr>,
         sem_listChecks = Inr \<lparr>li_total = 0, li_orphanLi = 0\<rparr>,
         sem_iframeChecks = Inr \<lparr>if_total = 0, if_noTitle = 0\<rparr>,
         sem_duplicateIds = Inr []\<rparr>,
      images =
        \<lparr>img_imageChecks = Inr \<lparr>ic_total = 2, ic_missingAlt = [(1, ''/logo.png'')], ic_emptyAlt = [],
                                 ic_longAlt = [], ic_decorativeWithAlt = []\<rparr>,
         img_svgChecks = Inr \<lparr>sc_total = 0, sc_noRole = [], sc_noAccessibleName = []\<rparr>,
         img_canvasChecks = Inr \<lparr>cc_total = 0, cc_noRole = [], cc_noAlt = []\<rparr>,
         img_mapChecks = Inr \<lparr>mc_total = 0, mc_areaNoAlt = 0\<rparr>\<rparr>,
      visualDesign =
        \<lparr>vis_linkStyleChecks = Inr \<lparr>ls_total = 1, ls_colorOnlyCount = 1\<rparr>,
         vis_focusChecks = Inr \<lparr>fs_total = 1, fs_noVisibleOutline = 1\<rparr>\<rparr>,
      responsive =
        \<lparr>res_setViewportSize = (\<lambda>w h. None),
         res_overflowChecks = Inr \<lparr>oc_docWidth = 320, oc_viewWidth = 320, oc_hasHorizontalScroll = False\<rparr>,
         res_viewportMeta = Inr \<lparr>vm_present = True,
                                  vm_content = Some ''width=device-width, initial-scale=1'',
                                  vm_allowsZoom = Some True\<rparr>\<rparr>,
      multimedia =
        \<lparr>mm_videoChecks = Inr \<lparr>vc_total = 0, vc_noCaptions = [], vc_autoplay = []\<rparr>,
         mm_audioChecks = Inr \<lparr>ac_total = 0, ac_autoplay = []\<rparr>,
         mm_flashChecks = Inr 0\<rparr>,
      inputMethods =
        \<lparr>inp_focusChecks = Inr \<lparr>fc_links = 1, fc_buttons = 0, fc_tabindexPositive = 0\<rparr>,
         inp_touchChecks = Inr \<lparr>tch_total = 1, tch_tooSmall = [(1, 120, 18)]\<rparr>\<rparr>,
      forms = \<lparr>frm_formChecks = Inl ''Execution context was destroyed''\<rparr>,
      dynamicUpdates = \<lparr>dyn_refreshMeta = Inr False, dyn_liveRegions = Inr 0\<rparr>\<rparr>"

definition example_page :: page where
  "example_page =
     \<lparr>goto = None,
      analyze = Inr \<lparr>res_violations = Some [], res_incomplete = Some [], res_passes = Some []\<rparr>,
      checks = (\<lambda>c. Inr []),
      mkdir_error = None\<rparr>"

text \<open>The disability categories counted for a check id.\<close>
definition disabilities_of :: "string \<Rightarrow> string list" where
  "disabilities_of checkId =
     (case map_of DISABILITY_MAP checkId of Some ds \<Rightarrow> ds | None \<Rightarrow> [''Various''])"

text \<open>Statistics that hold a number for exactly the known categories, and the number
  they hold for a category.\<close>

definition known_stats :: "(string \<times> js_number) list \<Rightarrow> bool" where
  "known_stats stats =
     (map fst stats = ALL_DISABILITIES \<and> (\<forall>d \<in> set ALL_DISABILITIES. \<exists>n. map_of stats d = Some (Num n)))"

definition stat :: "(string \<times> js_number) list \<Rightarrow> string \<Rightarrow> int" where
  "stat stats d = (case map_of stats d of Some (Num n) \<Rightarrow> n | _ \<Rightarrow> 0)"

section \<open>The chapter classifier\<close>

lemma set_foldl_set_add: "set (foldl set_add c ch) = set c \<union> set ch"
  by (induction ch arbitrary: c) (auto simp: set_add_def)

lemma distinct_foldl_set_add: "distinct c \<Longrightarrow> distinct (foldl set_add c ch)"
  by (induction ch arbitrary: c) (auto simp: set_add_def)

lemma table_range:
  "map_of AXE_TAG_TO_CHAPTER t = Some ch \<Longrightarrow> set ch \<subseteq> set CHECKLIST_CHAPTERS \<and> ch \<noteq> []"
  by (auto simp: AXE_TAG_TO_CHAPTER_def CHECKLIST_CHAPTERS_def split: if_splits)

lemma add_tag_Inr:
  "add_tag c t = Inr c' \<Longrightarrow>
     c' = (case map_of AXE_TAG_TO_CHAPTER t of Some ch \<Rightarrow> foldl set_add c ch | None \<Rightarrow> c)"
  by (auto simp: add_tag_def js_get_def split: option.splits if_splits)

lemma add_tag_total:
  "t \<notin> set Object_prototype_names \<Longrightarrow>
     add_tag c t = Inr (case map_of AXE_TAG_TO_CHAPTER t of Some ch \<Rightarrow> foldl set_add c ch | None \<Rightarrow> c)"
  by (auto simp: add_tag_def js_get_def split: option.splits if_splits)

lemma forEach_add_tag_total:
  "\<forall>t \<in> set ts. t \<notin> set Object_prototype_names \<Longrightarrow> \<exists>c'. forEach add_tag c ts = Inr c'"
  by (induction ts arbitrary: c) (auto simp: add_tag_total)

lemma forEach_add_tag_Inr:
  "forEach add_tag c ts = Inr c' \<Longrightarrow>
     set c' = set c \<union> matched ts \<and> (distinct c \<longrightarrow> distinct c')"
proof (induction ts arbitrary: c)
  case Nil
  then show ?case by (simp add: matched_def)
next
  case (Cons t ts)
  from Cons.prems obtain c1 where a: "add_tag c t = Inr c1" and r: "forEach add_tag c1 ts = Inr c'"
    by (auto split: sum.splits)
  from add_tag_Inr[OF a] Cons.IH[OF r] show ?case
    by (auto simp: matched_def set_foldl_set_add distinct_foldl_set_add split: option.splits)
qed

lemma matched_range: "matched ts \<subseteq> set CHECKLIST_CHAPTERS"
  using table_range by (fastforce simp: matched_def split: option.splits)

lemma categorize_Inr:
  assumes "categorizeAxeViolation v = Inr cs"
  shows "cs \<noteq> []" and "distinct cs" and "set cs \<subseteq> set CHECKLIST_CHAPTERS"
    and "set cs = (if matched (or_empty (tags v)) = {} then {''semantics''} else matched (or_empty (tags v)))"
proof -
  from assms obtain c where f: "forEach add_tag [] (or_empty (tags v)) = Inr c"
    and cs: "cs = (if length c = 0 then set_add c ''semantics'' else c)"
    by (auto simp: categorizeAxeViolation_def or_empty_def split: sum.splits)
  from forEach_add_tag_Inr[OF f] have s: "set c = matched (or_empty (tags v))" and d: "distinct c"
    by auto
  have sem: "''semantics'' \<in> set CHECKLIST_CHAPTERS" by (simp add: CHECKLIST_CHAPTERS_def)
  have "cs \<noteq> [] \<and> distinct cs \<and> set cs \<subseteq> set CHECKLIST_CHAPTERS \<and>
         set cs = (if matched (or_empty (tags v)) = {} then {''semantics''} else matched (or_empty (tags v)))"
  proof (cases "c = []")
    case True
    with s cs sem show ?thesis by (simp add: set_add_def)
  next
    case False
    with s d cs matched_range[of "or_empty (tags v)"] show ?thesis by auto
  qed
  then show "cs \<noteq> []" and "distinct cs" and "set cs \<subseteq> set CHECKLIST_CHAPTERS"
    and "set cs = (if matched (or_empty (tags v)) = {} then {''semantics''} else matched (or_empty (tags v)))"
    by blast+
qed

lemma categorize_total:
  assumes "\<forall>t \<in> set (or_empty (tags v)). t \<notin> set Object_prototype_names"
  shows "\<exists>cs. categorizeAxeViolation v = Inr cs"
proof -
  from forEach_add_tag_total[OF assms] obtain c where "forEach add_tag [] (or_empty (tags v)) = Inr c"
    by blast
  then show ?thesis by (simp add: categorizeAxeViolation_def or_empty_def)
qed

text \<open>For a record none of whose tags names a member of \<^verbatim>\<open>Object.prototype\<close> (its tags
  absent, empty, known or unknown) the classifier returns a non-empty list of chapter
  keys, and the list that holds \<^verbatim>\<open>semantics\<close> when no tag has an entry in the table.\<close>

lemma categorizeAxeViolation_nonempty:
  assumes "\<forall>t \<in> set (or_empty (tags v)). t \<notin> set Object_prototype_names"
  shows "\<exists>cs. categorizeAxeViolation v = Inr cs \<and> cs \<noteq> [] \<and> set cs \<subseteq> set CHECKLIST_CHAPTERS \<and>
           ((\<forall>t \<in> set (or_empty (tags v)). map_of AXE_TAG_TO_CHAPTER t = None) \<longrightarrow> cs = [''semantics''])"
proof -
  from categorize_total[OF assms] obtain cs where c: "categorizeAxeViolation v = Inr cs" by blast
  note P = categorize_Inr[OF c]
  have "cs = [''semantics'']" if "\<forall>t \<in> set (or_empty (tags v)). map_of AXE_TAG_TO_CHAPTER t = None"
  proof -
    from that have "matched (or_empty (tags v)) = {}" by (simp add: matched_def)
    with P(4) have s: "set cs = {''semantics''}" by simp
    with P(2) have "length cs = 1" by (metis distinct_card card.empty card_insert_disjoint empty_iff finite.emptyI One_nat_def)
    with s show ?thesis by (cases cs) auto
  qed
  with c P(1,3) show ?thesis by blast
qed

lemma categorizeAxeViolation_examples:
  "(\<exists>cs. categorizeAxeViolation \<lparr>rid = ''label'', help_text = ''Form elements must have labels'',
              tags = Some [''cat.forms'', ''wcag2a'', ''wcag412''], nodes = 2\<rparr> = Inr cs \<and> cs \<noteq> []) \<and>
   categorizeAxeViolation \<lparr>rid = ''custom-rule'', help_text = ''A rule of the site'',
              tags = Some [''experimental''], nodes = 1\<rparr> = Inr [''semantics''] \<and>
   categorizeAxeViolation \<lparr>rid = ''untagged'', help_text = ''No tags'',
              tags = None, nodes = 0\<rparr> = Inr [''semantics'']"
  using categorizeAxeViolation_nonempty[of "\<lparr>rid = ''label'', help_text = ''Form elements must have labels'',
              tags = Some [''cat.forms'', ''wcag2a'', ''wcag412''], nodes = 2\<rparr>"]
    categorizeAxeViolation_nonempty[of "\<lparr>rid = ''custom-rule'', help_text = ''A rule of the site'',
              tags = Some [''experimental''], nodes = 1\<rparr>"]
    categorizeAxeViolation_nonempty[of "\<lparr>rid = ''untagged'', help_text = ''No tags'',
              tags = None, nodes = 0\<rparr>"]
  by (auto simp: or_empty_def Object_prototype_names_def AXE_TAG_TO_CHAPTER_def)

text \<open>
  Claim C6, on the code. The classifier is not total: it skips an unknown tag with the
  guard \<^verbatim>\<open>if (ch)\<close> and falls back to \<^verbatim>\<open>semantics\<close>, but it reads the tag table with
  \<^verbatim>\<open>AXE_TAG_TO_CHAPTER[tag]\<close>, and for an unknown tag that names a member of
  \<^verbatim>\<open>Object.prototype\<close> this read finds the member: the guard lets it through, it has no
  \<^verbatim>\<open>forEach\<close>, and for the record of a custom rule tagged \<^verbatim>\<open>constructor\<close> the classifier
  throws a \<^verbatim>\<open>TypeError\<close> where the claim has it return the list that holds \<^verbatim>\<open>semantics\<close>.
\<close>

theorem categorizeAxeViolation_inherited_tag:
  "categorizeAxeViolation \<lparr>rid = ''custom-rule'', help_text = ''A rule of the site'',
        tags = Some [''constructor''], nodes = 1\<rparr> = Inl (TypeError ''ch.forEach is not a function'')"
  by (simp add: categorizeAxeViolation_def add_tag_def js_get_def AXE_TAG_TO_CHAPTER_def
      Object_prototype_names_def)

section \<open>Chapter buckets\<close>

lemma map_of_update_key:
  "map_of (map (\<lambda>(c, b). if c = ch then (c, f b) else (c, b)) bc) x
     = (if x = ch then map_option f (map_of bc x) else map_of bc x)"
  by (induction bc) auto

lemma map_fst_update_key:
  "map fst (map (\<lambda>(c, b). if c = ch then (c, f b) else (c, b)) bc) = map fst bc"
  by (induction bc) auto

lemma push_chapter_Inr:
  assumes "push_chapter k v bc ch = Inr bc'"
  shows "map fst bc' = map fst bc"
    and "map_of bc' x = (if x = ch then map_option (push k v) (map_of bc x) else map_of bc x)"
  using assms
  by (auto simp: push_chapter_def js_get_def map_of_update_key map_fst_update_key
      split: option.splits if_splits)

lemma push_chapter_total:
  "ch \<in> set (map fst bc) \<Longrightarrow> \<exists>bc'. push_chapter k v bc ch = Inr bc'"
  by (cases "map_of bc ch") (auto simp: push_chapter_def js_get_def map_of_eq_None_iff)

lemma forEach_push_Inr:
  "forEach (push_chapter k v) bc cs = Inr bc' \<Longrightarrow> distinct cs \<Longrightarrow>
     map fst bc' = map fst bc \<and>
     (\<forall>x. map_of bc' x = (if x \<in> set cs then map_option (push k v) (map_of bc x) else map_of bc x))"
proof (induction cs arbitrary: bc)
  case Nil
  then show ?case by simp
next
  case (Cons c cs)
  from Cons.prems obtain bc1 where a: "push_chapter k v bc c = Inr bc1"
    and r: "forEach (push_chapter k v) bc1 cs = Inr bc'"
    by (auto split: sum.splits)
  from Cons.prems have d: "distinct cs" and n: "c \<notin> set cs" by auto
  from Cons.IH[OF r d] push_chapter_Inr[OF a] n show ?case by auto
qed

lemma forEach_push_total:
  "set cs \<subseteq> set (map fst bc) \<Longrightarrow> \<exists>bc'. forEach (push_chapter k v) bc cs = Inr bc'"
proof (induction cs arbitrary: bc)
  case Nil
  then show ?case by simp
next
  case (Cons c cs)
  then have "c \<in> set (map fst bc)" by simp
  from push_chapter_total[OF this] obtain bc1 where a: "push_chapter k v bc c = Inr bc1" by blast
  from push_chapter_Inr(1)[OF a] Cons.prems have "set cs \<subseteq> set (map fst bc1)" by simp
  from Cons.IH[OF this] a show ?case by simp
qed

lemma bucket_record_Inr:
  assumes "bucket_record k bc v = Inr bc'"
  shows "map fst bc' = map fst bc \<and>
     (\<forall>x. map_of bc' x = (if classified_into x v then map_option (push k v) (map_of bc x) else map_of bc x))"
proof -
  from assms obtain cs where c: "categorizeAxeViolation v = Inr cs"
    and f: "forEach (push_chapter k v) bc cs = Inr bc'"
    by (auto simp: bucket_record_def split: sum.splits)
  from categorize_Inr(2)[OF c] have "distinct cs" .
  from forEach_push_Inr[OF f this] c show ?thesis by (simp add: classified_into_def)
qed

lemma bucket_record_total:
  assumes "\<forall>t \<in> set (or_empty (tags v)). t \<notin> set Object_prototype_names"
    and "map fst bc = CHECKLIST_CHAPTERS"
  shows "\<exists>bc'. bucket_record k bc v = Inr bc'"
proof -
  from categorize_total[OF assms(1)] obtain cs where c: "categorizeAxeViolation v = Inr cs" by blast
  from categorize_Inr(3)[OF c] assms(2) have "set cs \<subseteq> set (map fst bc)" by simp
  from forEach_push_total[OF this] c show ?thesis by (simp add: bucket_record_def)
qed

lemma bucket_of_push:
  "bucket_of k' (push k v b) = (if k' = k then bucket_of k b @ [v] else bucket_of k' b)"
  by (cases k; cases k') auto

lemma forEach_bucket_Inr:
  "forEach (bucket_record k) bc vs = Inr bc' \<Longrightarrow>
     map fst bc' = map fst bc \<and>
     (\<forall>x b. map_of bc x = Some b \<longrightarrow>
        (\<exists>b'. map_of bc' x = Some b' \<and>
           (\<forall>k'. bucket_of k' b' =
              (if k' = k then bucket_of k b @ filter (classified_into x) vs else bucket_of k' b))))"
proof (induction vs arbitrary: bc)
  case Nil
  then show ?case by simp
next
  case (Cons v vs)
  from Cons.prems obtain bc1 where a: "bucket_record k bc v = Inr bc1"
    and r: "forEach (bucket_record k) bc1 vs = Inr bc'"
    by (auto split: sum.splits)
  note A = bucket_record_Inr[OF a] and R = Cons.IH[OF r]
  show ?case
  proof (intro conjI allI impI)
    show "map fst bc' = map fst bc" using A R by simp
  next
    fix x b assume xb: "map_of bc x = Some b"
    let ?b1 = "if classified_into x v then push k v b else b"
    from A xb have "map_of bc1 x = Some ?b1" by simp
    with R obtain b' where b': "map_of bc' x = Some b'"
      and e: "\<forall>k'. bucket_of k' b' =
              (if k' = k then bucket_of k ?b1 @ filter (classified_into x) vs else bucket_of k' ?b1)"
      by blast
    show "\<exists>b'. map_of bc' x = Some b' \<and>
           (\<forall>k'. bucket_of k' b' =
              (if k' = k then bucket_of k b @ filter (classified_into x) (v # vs) else bucket_of k' b))"
      using b' e by (auto simp: bucket_of_push)
  qed
qed

lemma forEach_bucket_total:
  "\<forall>v \<in> set vs. \<forall>t \<in> set (or_empty (tags v)). t \<notin> set Object_prototype_names \<Longrightarrow>
   map fst bc = CHECKLIST_CHAPTERS \<Longrightarrow> \<exists>bc'. forEach (bucket_record k) bc vs = Inr bc'"
proof (induction vs arbitrary: bc)
  case Nil
  then show ?case by simp
next
  case (Cons v vs)
  then have "\<forall>t \<in> set (or_empty (tags v)). t \<notin> set Object_prototype_names" by simp
  from bucket_record_total[OF this Cons.prems(2)] obtain bc1 where a: "bucket_record k bc v = Inr bc1"
    by blast
  from bucket_record_Inr[OF a] Cons.prems(2) have "map fst bc1 = CHECKLIST_CHAPTERS" by simp
  from Cons.IH[OF _ this] Cons.prems(1) a show ?case by simp
qed

lemma runAxeScan_returns:
  assumes "\<forall>v \<in> set (or_empty (res_violations results) @ or_empty (res_incomplete results)
                      @ or_empty (res_passes results)).
             \<forall>t \<in> set (or_empty (tags v)). t \<notin> set Object_prototype_names"
  shows "\<exists>d. runAxeScan results u = Inr d"
proof -
  let ?bc0 = "map (\<lambda>ch. (ch, \<lparr>violations = [], incomplete = [], passes = []\<rparr>)) CHECKLIST_CHAPTERS"
  have k0: "map fst ?bc0 = CHECKLIST_CHAPTERS" by (simp add: comp_def)
  from assms forEach_bucket_total[OF _ k0, of "or_empty (res_violations results)" Violations]
  obtain bc1 where f1: "forEach (bucket_record Violations) ?bc0 (or_empty (res_violations results)) = Inr bc1"
    by auto
  from forEach_bucket_Inr[OF f1] k0 have k1: "map fst bc1 = CHECKLIST_CHAPTERS" by simp
  from assms forEach_bucket_total[OF _ k1, of "or_empty (res_incomplete results)" Incomplete]
  obtain bc2 where f2: "forEach (bucket_record Incomplete) bc1 (or_empty (res_incomplete results)) = Inr bc2"
    by auto
  from forEach_bucket_Inr[OF f2] k1 have k2: "map fst bc2 = CHECKLIST_CHAPTERS" by simp
  from assms forEach_bucket_total[OF _ k2, of "or_empty (res_passes results)" Passes]
  obtain bc3 where f3: "forEach (bucket_record Passes) bc2 (or_empty (res_passes results)) = Inr bc3"
    by auto
  from f1 f2 f3 show ?thesis by (simp add: runAxeScan_def)
qed

text \<open>
  Claim C7. Whatever the lists of violations, incomplete and passes records are, the
  \<^verbatim>\<open>byChapter\<close> map that \<^verbatim>\<open>runAxeScan\<close> builds has an entry for each of the 8 chapter
  keys, in the order of the taxonomy and also when its lists stay empty, and the three
  lists of a chapter hold, in their order, exactly the records that the classifier puts
  into that chapter: a record whose tags lead to several chapters is in the bucket of
  each of them.
\<close>

theorem runAxeScan_byChapter:
  assumes "runAxeScan results u = Inr d"
  shows "map fst (byChapter d) = CHECKLIST_CHAPTERS \<and>
     (\<forall>ch \<in> set CHECKLIST_CHAPTERS. \<exists>b. map_of (byChapter d) ch = Some b \<and>
         violations b = filter (classified_into ch) (or_empty (res_violations results)) \<and>
         incomplete b = filter (classified_into ch) (or_empty (res_incomplete results)) \<and>
         passes b = filter (classified_into ch) (or_empty (res_passes results)))"
proof -
  let ?bc0 = "map (\<lambda>ch. (ch, \<lparr>violations = [], incomplete = [], passes = []\<rparr>)) CHECKLIST_CHAPTERS"
  from assms obtain bc1 bc2 bc3 where
    f1: "forEach (bucket_record Violations) ?bc0 (or_empty (res_violations results)) = Inr bc1" and
    f2: "forEach (bucket_record Incomplete) bc1 (or_empty (res_incomplete results)) = Inr bc2" and
    f3: "forEach (bucket_record Passes) bc2 (or_empty (res_passes results)) = Inr bc3" and
    d: "byChapter d = bc3"
    by (auto simp: runAxeScan_def split: sum.splits)
  note F1 = forEach_bucket_Inr[OF f1] and F2 = forEach_bucket_Inr[OF f2]
    and F3 = forEach_bucket_Inr[OF f3]
  have k0: "map fst ?bc0 = CHECKLIST_CHAPTERS" by (simp add: comp_def)
  have keys: "map fst bc3 = CHECKLIST_CHAPTERS" using F1 F2 F3 k0 by simp
  have buckets: "\<exists>b. map_of bc3 ch = Some b \<and>
         violations b = filter (classified_into ch) (or_empty (res_violations results)) \<and>
         incomplete b = filter (classified_into ch) (or_empty (res_incomplete results)) \<and>
         passes b = filter (classified_into ch) (or_empty (res_passes results))"
    if ch: "ch \<in> set CHECKLIST_CHAPTERS" for ch
  proof -
    let ?b0 = "\<lparr>violations = [], incomplete = [], passes = []\<rparr>"
    from ch have "map_of ?bc0 ch = Some ?b0"
      by (simp add: map_of_map_restrict)
    with F1 obtain b1 where b1: "map_of bc1 ch = Some b1"
      and e1: "\<forall>k'. bucket_of k' b1 = (if k' = Violations
          then bucket_of Violations ?b0 @ filter (classified_into ch) (or_empty (res_violations results))
          else bucket_of k' ?b0)"
      by blast
    from F2 b1 obtain b2 where b2: "map_of bc2 ch = Some b2"
      and e2: "\<forall>k'. bucket_of k' b2 = (if k' = Incomplete
          then bucket_of Incomplete b1 @ filter (classified_into ch) (or_empty (res_incomplete results))
          else bucket_of k' b1)"
      by blast
    from F3 b2 obtain b3 where b3: "map_of bc3 ch = Some b3"
      and e3: "\<forall>k'. bucket_of k' b3 = (if k' = Passes
          then bucket_of Passes b2 @ filter (classified_into ch) (or_empty (res_passes results))
          else bucket_of k' b2)"
      by blast
    from e1[rule_format, of Violations] e1[rule_format, of Incomplete] e1[rule_format, of Passes]
      e2[rule_format, of Violations] e2[rule_format, of Incomplete] e2[rule_format, of Passes]
      e3[rule_format, of Violations] e3[rule_format, of Incomplete] e3[rule_format, of Passes]
    have "violations b3 = filter (classified_into ch) (or_empty (res_violations results)) \<and>
         incomplete b3 = filter (classified_into ch) (or_empty (res_incomplete results)) \<and>
         passes b3 = filter (classified_into ch) (or_empty (res_passes results))"
      by simp
    with b3 show ?thesis by blast
  qed
  from keys buckets d show ?thesis by simp
qed

lemma classify_label:
  "categorizeAxeViolation \<lparr>rid = ''label'', help_text = ''Form elements must have labels'',
        tags = Some [''cat.forms'', ''wcag2a'', ''wcag412''], nodes = 2\<rparr>
     = Inr [''forms'', ''semantics'', ''images'', ''inputMethods'']"
  by (simp add: categorizeAxeViolation_def add_tag_def js_get_def AXE_TAG_TO_CHAPTER_def
      Object_prototype_names_def set_add_def)

lemma classify_untagged:
  "categorizeAxeViolation \<lparr>rid = ''untagged'', help_text = ''No tags'', tags = None, nodes = 0\<rparr>
     = Inr [''semantics'']"
  by (simp add: categorizeAxeViolation_def set_add_def)

theorem runAxeScan_byChapter_witness:
  "\<exists>d. runAxeScan
          \<lparr>res_violations = Some [\<lparr>rid = ''label'', help_text = ''Form elements must have labels'',
                                   tags = Some [''cat.forms'', ''wcag2a'', ''wcag412''], nodes = 2\<rparr>,
                                  \<lparr>rid = ''untagged'', help_text = ''No tags'', tags = None, nodes = 0\<rparr>],
           res_incomplete = None, res_passes = Some []\<rparr> ''https://example.org/'' = Inr d \<and>
        map fst (byChapter d) = CHECKLIST_CHAPTERS \<and>
        map_option (map rid \<circ> violations) (map_of (byChapter d) ''forms'') = Some [''label''] \<and>
        map_option (map rid \<circ> violations) (map_of (byChapter d) ''semantics'')
          = Some [''label'', ''untagged''] \<and>
        map_option (map rid \<circ> violations) (map_of (byChapter d) ''multimedia'') = Some []"
proof -
  let ?v1 = "\<lparr>rid = ''label'', help_text = ''Form elements must have labels'',
                                   tags = Some [''cat.forms'', ''wcag2a'', ''wcag412''], nodes = 2\<rparr>"
  let ?v2 = "\<lparr>rid = ''untagged'', help_text = ''No tags'', tags = None, nodes = 0\<rparr>"
  let ?res = "\<lparr>res_violations = Some [?v1, ?v2], res_incomplete = None, res_passes = Some []\<rparr>"
  have "\<exists>d. runAxeScan ?res ''https://example.org/'' = Inr d"
    by (rule runAxeScan_returns) (auto simp: or_empty_def Object_prototype_names_def)
  then obtain d where run: "runAxeScan ?res ''https://example.org/'' = Inr d" by blast
  note T = runAxeScan_byChapter[OF run]
  from T have keys: "map fst (byChapter d) = CHECKLIST_CHAPTERS" by simp
  have ci: "classified_into ch ?v1 = (ch \<in> {''forms'', ''semantics'', ''images'', ''inputMethods''})"
    "classified_into ch ?v2 = (ch = ''semantics'')" for ch
    by (auto simp: classified_into_def classify_label classify_untagged)
  have m: "''forms'' \<in> set CHECKLIST_CHAPTERS" "''semantics'' \<in> set CHECKLIST_CHAPTERS"
    "''multimedia'' \<in> set CHECKLIST_CHAPTERS"
    by (simp_all add: CHECKLIST_CHAPTERS_def)
  from T m(1) obtain b1 where b1: "map_of (byChapter d) ''forms'' = Some b1"
    "violations b1 = filter (classified_into ''forms'') (or_empty (res_violations ?res))"
    by blast
  from T m(2) obtain b2 where b2: "map_of (byChapter d) ''semantics'' = Some b2"
    "violations b2 = filter (classified_into ''semantics'') (or_empty (res_violations ?res))"
    by blast
  from T m(3) obtain b3 where b3: "map_of (byChapter d) ''multimedia'' = Some b3"
    "violations b3 = filter (classified_into ''multimedia'') (or_empty (res_violations ?res))"
    by blast
  have "map_option (map rid \<circ> violations) (map_of (byChapter d) ''forms'') = Some [''label'']"
    by (simp add: b1 or_empty_def ci)
  moreover have "map_option (map rid \<circ> violations) (map_of (byChapter d) ''semantics'')
          = Some [''label'', ''untagged'']"
    by (simp add: b2 or_empty_def ci)
  moreover have "map_option (map rid \<circ> violations) (map_of (byChapter d) ''multimedia'') = Some []"
    by (simp add: b3 or_empty_def ci)
  ultimately show ?thesis using run keys by (intro exI[of _ d] conjI)
qed

section \<open>The test run\<close>

lemma runAxeScan_violations: "runAxeScan results u = Inr d \<Longrightarrow> data_violations d = res_violations results"
  by (auto simp: runAxeScan_def split: sum.splits)

lemma test_url_customResults:
  "customResults (test_url r v) = customResults r @ visit_results v"
  by (cases v)
     (auto simp: test_url_def visit_results_def load_error_def late_error_def page_load_failure_def
        page_load_result_def Let_def runAxeScan_violations split: option.splits sum.splits)

lemma test_url_summary:
  "summary (test_url r v) = foldl tally (summary r) (visit_results v)"
  by (cases v)
     (auto simp: test_url_def visit_results_def load_error_def late_error_def page_load_failure_def
        page_load_result_def Let_def runAxeScan_violations tally_def split: option.splits sum.splits)

lemma test_url_urls:
  "urls (test_url r v) = urls r @ (if load_error v = None then [fst v] else [])"
  by (cases v)
     (auto simp: test_url_def load_error_def page_load_failure_def Let_def
        split: option.splits sum.splits)

lemma map_of_assoc_set: "map_of (assoc_set obj k v) x = (if x = k then Some v else map_of obj x)"
  by (induction obj) auto

lemma test_url_axeResults:
  "x \<noteq> fst v \<or> load_error v \<noteq> None \<Longrightarrow>
     map_of (axeResults (test_url r v)) x = map_of (axeResults r) x"
  by (cases v)
     (auto simp: test_url_def load_error_def page_load_failure_def Let_def js_set_def map_of_assoc_set
        split: option.splits sum.splits)

lemma foldl_customResults:
  "customResults (foldl test_url r vs) = customResults r @ concat (map visit_results vs)"
  by (induction vs arbitrary: r) (simp_all add: test_url_customResults)

lemma foldl_summary:
  "summary (foldl test_url r vs) = foldl tally (summary r) (concat (map visit_results vs))"
  by (induction vs arbitrary: r) (simp_all add: test_url_summary)

lemma foldl_urls:
  "urls (foldl test_url r vs) = urls r @ map fst (filter (\<lambda>v. load_error v = None) vs)"
  by (induction vs arbitrary: r) (simp_all add: test_url_urls)

lemma foldl_axeResults:
  "\<forall>v \<in> set vs. fst v = x \<longrightarrow> load_error v \<noteq> None \<Longrightarrow>
     map_of (axeResults (foldl test_url r vs)) x = map_of (axeResults r) x"
proof (induction vs arbitrary: r)
  case Nil
  then show ?case by simp
next
  case (Cons v vs)
  from Cons.prems have "x \<noteq> fst v \<or> load_error v \<noteq> None" by auto
  from test_url_axeResults[OF this] Cons.IH[of "test_url r v"] Cons.prems show ?case by simp
qed

lemma foldl_tally:
  "foldl tally s rs =
     \<lparr>pass = pass s + length (filter (\<lambda>r. status r = Pass) rs),
      fail = fail s + length (filter (\<lambda>r. status r = Fail) rs),
      warn = warn s + length (filter (\<lambda>r. status r \<noteq> Pass \<and> status r \<noteq> Fail) rs)\<rparr>"
  by (induction rs arbitrary: s) (auto simp: tally_def)

text \<open>What the three counters of the summary count: \<open>warn\<close> takes every result that is
  neither \<open>pass\<close> nor \<open>fail\<close>.\<close>

lemma main_summary:
  assumes "main visits = Inr rep"
  shows "pass (summary rep) = length (filter (\<lambda>r. status r = Pass) (customResults rep))"
    and "fail (summary rep) = length (filter (\<lambda>r. status r = Fail) (customResults rep))"
    and "warn (summary rep) = length (filter (\<lambda>r. status r = Warn \<or> status r = Info) (customResults rep))"
proof -
  from assms have rep: "rep = foldl test_url \<lparr>urls = [], axeResults = [], customResults = [],
                    summary = \<lparr>pass = 0, fail = 0, warn = 0\<rparr>\<rparr> visits"
    by (auto simp: main_def split: if_splits)
  have e: "(\<lambda>r. status r \<noteq> Pass \<and> status r \<noteq> Fail) = (\<lambda>r. status r = Warn \<or> status r = Info)"
  proof
    fix r show "(status r \<noteq> Pass \<and> status r \<noteq> Fail) = (status r = Warn \<or> status r = Info)"
      by (cases "status r") simp_all
  qed
  show "pass (summary rep) = length (filter (\<lambda>r. status r = Pass) (customResults rep))"
    and "fail (summary rep) = length (filter (\<lambda>r. status r = Fail) (customResults rep))"
    and "warn (summary rep) = length (filter (\<lambda>r. status r = Warn \<or> status r = Info) (customResults rep))"
    unfolding rep foldl_summary foldl_customResults foldl_tally e by simp_all
qed

lemma runAxeScan_empty:
  "runAxeScan \<lparr>res_violations = Some [], res_incomplete = Some [], res_passes = Some []\<rparr> u =
     Inr \<lparr>url = u, data_violations = Some [], data_incomplete = Some [], data_passes = Some [],
          byChapter = map (\<lambda>ch. (ch, \<lparr>violations = [], incomplete = [], passes = []\<rparr>)) CHECKLIST_CHAPTERS\<rparr>"
  by (simp add: runAxeScan_def or_empty_def)

text \<open>
  Claim C3, on the code. \<^verbatim>\<open>summary.warn\<close> is not the number of results whose status is
  \<^verbatim>\<open>warn\<close>: the tally has no case for \<^verbatim>\<open>info\<close>, which its last \<^verbatim>\<open>else\<close> counts as a
  warning. One page on which only the dynamic-updates adapter reports, with its two
  results as that adapter writes them (a \<^verbatim>\<open>pass\<close> and an \<^verbatim>\<open>info\<close>), gives \<open>warn = 1\<close> with
  no \<^verbatim>\<open>warn\<close> result in \<^verbatim>\<open>customResults\<close>.
\<close>

theorem summary_warn_counts_info:
  "map_sum id (\<lambda>rep. (map status (customResults rep), summary rep))
     (main [(''https://example.org/'',
             \<lparr>goto = None,
              analyze = Inr \<lparr>res_violations = Some [], res_incomplete = Some [], res_passes = Some []\<rparr>,
              checks = (\<lambda>c. if c = ''dynamicUpdates''
                 then Inr [\<lparr>cid = ''no-auto-refresh'',
                            cr_rule = ''Page MUST NOT refresh or reload automatically'',
                            status = Pass, message = ''No meta refresh'',
                            cr_chapter = Some ''dynamicUpdates'', cr_url = None\<rparr>,
                           \<lparr>cid = ''dynamic-announcements'',
                            cr_rule = ''Dynamic content changes SHOULD be announced (aria-live, etc.)'',
                            status = Info,
                            message = ''Found 0 aria-live region(s) - verify status messages are announced'',
                            cr_chapter = Some ''dynamicUpdates'', cr_url = None\<rparr>]
                 else Inr []),
              mkdir_error = None\<rparr>)])
   = Inr ([Pass, Info], \<lparr>pass = 1, fail = 0, warn = 1\<rparr>)"
  by (simp add: main_def test_url_def runAxeScan_empty runCustomChecks_def run_chapter_def
      chapters_def tally_def or_empty_def)

lemma run_chapter_url: "r \<in> set (run_chapter p u c) \<Longrightarrow> cr_url r = Some u"
  by (cases "checks p c") (auto simp: run_chapter_def)

lemma visit_results_url: "r \<in> set (visit_results v) \<Longrightarrow> cr_url r = Some (fst v)"
  by (auto simp: visit_results_def page_load_result_def runCustomChecks_def run_chapter_url
      split: option.splits)

lemma filter_url_concat:
  "filter (\<lambda>r. cr_url r = Some u) (concat (map visit_results vs))
     = concat (map visit_results (filter (\<lambda>v. fst v = u) vs))"
proof (induction vs)
  case Nil
  then show ?case by simp
next
  case (Cons v vs)
  have "filter (\<lambda>r. cr_url r = Some u) (visit_results v) = (if fst v = u then visit_results v else [])"
    using visit_results_url[of _ v] by (auto simp: filter_empty_conv filter_id_conv)
  with Cons show ?case by simp
qed

lemma distinct_filter_fst:
  "distinct (map fst vs) \<Longrightarrow> (u, p) \<in> set vs \<Longrightarrow> filter (\<lambda>v. fst v = u) vs = [(u, p)]"
proof (induction vs)
  case Nil
  then show ?case by simp
next
  case (Cons v vs)
  show ?case
  proof (cases "v = (u, p)")
    case True
    with Cons.prems have "\<forall>w \<in> set vs. fst w \<noteq> u" by force
    then have "filter (\<lambda>v. fst v = u) vs = []" by (simp add: filter_empty_conv)
    with True show ?thesis by simp
  next
    case False
    with Cons.prems have in_vs: "(u, p) \<in> set vs" by simp
    then have "u \<in> fst ` set vs" by force
    moreover from Cons.prems(1) have "fst v \<notin> fst ` set vs" by simp
    ultimately have "fst v \<noteq> u" by blast
    with Cons.IH in_vs Cons.prems show ?thesis by simp
  qed
qed

lemma count_page_load:
  "\<forall>v \<in> set vs. load_error v = None \<longrightarrow> late_error v = None \<and>
       (\<forall>r \<in> set (runCustomChecks (snd v) (fst v)). cid r \<noteq> ''page-load'') \<Longrightarrow>
   length (filter (\<lambda>r. cid r = ''page-load'') (concat (map visit_results vs)))
     = length (filter (\<lambda>v. load_error v \<noteq> None) vs)"
proof (induction vs)
  case Nil
  then show ?case by simp
next
  case (Cons v vs)
  then have v: "load_error v = None \<longrightarrow> late_error v = None \<and>
    (\<forall>r \<in> set (runCustomChecks (snd v) (fst v)). cid r \<noteq> ''page-load'')" by simp
  have "length (filter (\<lambda>r. cid r = ''page-load'') (visit_results v))
          = (if load_error v \<noteq> None then 1 else 0)"
    using v by (auto simp: visit_results_def page_load_result_def filter_empty_conv split: option.splits)
  with Cons show ?case by simp
qed

text \<open>
  Claim C4, amended. In a run over distinct URLs, a URL whose visit fails before it is recorded
  (the page load, or the audit that follows it, throws) has exactly one result in
  \<^verbatim>\<open>customResults\<close>: the synthetic one with id \<^verbatim>\<open>page-load\<close>, status \<^verbatim>\<open>fail\<close> and the
  message of the error. The URL is neither in \<^verbatim>\<open>urls\<close> nor a key of \<^verbatim>\<open>axeResults\<close>;
  \<^verbatim>\<open>urls\<close> has one entry per visit that did not fail so, \<^verbatim>\<open>summary.fail\<close> is at least 1,
  and when the visits that load meet no later error and their adapters do not use the
  id \<^verbatim>\<open>page-load\<close>, the results with that id are as many as the failed visits. With
  3 URLs of which 1 fails to load: 2 entries in \<^verbatim>\<open>urls\<close> and 1 result with id
  \<^verbatim>\<open>page-load\<close>.
\<close>

theorem page_load_failures:
  assumes run: "main visits = Inr rep"
    and dist: "distinct (map fst visits)"
    and v: "(u, p) \<in> set visits"
    and f: "load_error (u, p) = Some msg"
  shows "filter (\<lambda>r. cr_url r = Some u) (customResults rep)
           = [\<lparr>cid = ''page-load'', cr_rule = ''Page load'', status = Fail, message = msg,
               cr_chapter = None, cr_url = Some u\<rparr>] \<and>
         u \<notin> set (urls rep) \<and> map_of (axeResults rep) u = None \<and>
         length (urls rep) = length (filter (\<lambda>v. load_error v = None) visits) \<and>
         1 \<le> fail (summary rep) \<and>
         ((\<forall>v \<in> set visits. load_error v = None \<longrightarrow> late_error v = None \<and>
              (\<forall>r \<in> set (runCustomChecks (snd v) (fst v)). cid r \<noteq> ''page-load''))
          \<longrightarrow> length (filter (\<lambda>r. cid r = ''page-load'') (customResults rep))
                = length (filter (\<lambda>v. load_error v \<noteq> None) visits))"
proof -
  from run have rep: "rep = foldl test_url \<lparr>urls = [], axeResults = [], customResults = [],
                    summary = \<lparr>pass = 0, fail = 0, warn = 0\<rparr>\<rparr> visits"
    by (auto simp: main_def split: if_splits)
  have cr: "customResults rep = concat (map visit_results visits)"
    by (simp add: rep foldl_customResults)
  have vr: "visit_results (u, p) =
      [\<lparr>cid = ''page-load'', cr_rule = ''Page load'', status = Fail, message = msg,
               cr_chapter = None, cr_url = Some u\<rparr>]"
    using f by (simp add: visit_results_def page_load_result_def)
  have one: "filter (\<lambda>r. cr_url r = Some u) (customResults rep)
           = [\<lparr>cid = ''page-load'', cr_rule = ''Page load'', status = Fail, message = msg,
               cr_chapter = None, cr_url = Some u\<rparr>]"
    by (simp add: cr filter_url_concat distinct_filter_fst[OF dist v] vr)
  have only: "w = (u, p)" if "w \<in> set visits" "fst w = u" for w
  proof -
    from that have "w \<in> set (filter (\<lambda>v. fst v = u) visits)" by simp
    then show ?thesis by (simp only: distinct_filter_fst[OF dist v]) simp
  qed
  have nu: "u \<notin> set (urls rep)"
  proof
    assume "u \<in> set (urls rep)"
    then obtain w where "w \<in> set visits" "load_error w = None" "fst w = u"
      by (auto simp: rep foldl_urls)
    with only f show False by auto
  qed
  have "\<forall>w \<in> set visits. fst w = u \<longrightarrow> load_error w \<noteq> None"
    using only f by auto
  then have na: "map_of (axeResults rep) u = None"
    by (simp add: rep foldl_axeResults)
  have len: "length (urls rep) = length (filter (\<lambda>v. load_error v = None) visits)"
    by (simp add: rep foldl_urls)
  have "\<lparr>cid = ''page-load'', cr_rule = ''Page load'', status = Fail, message = msg,
               cr_chapter = None, cr_url = Some u\<rparr> \<in> set (visit_results (u, p))"
    by (simp add: vr)
  with v have "\<exists>r \<in> set (customResults rep). status r = Fail"
    unfolding cr by (intro bexI[where x = "\<lparr>cid = ''page-load'', cr_rule = ''Page load'', status = Fail, message = msg,
               cr_chapter = None, cr_url = Some u\<rparr>"]) auto
  then have "filter (\<lambda>r. status r = Fail) (customResults rep) \<noteq> []"
    by (simp add: filter_empty_conv)
  then have one_fail: "1 \<le> fail (summary rep)"
    using main_summary(2)[OF run] by (cases "filter (\<lambda>r. status r = Fail) (customResults rep)") simp_all
  have cnt: "length (filter (\<lambda>r. cid r = ''page-load'') (customResults rep))
                = length (filter (\<lambda>v. load_error v \<noteq> None) visits)"
    if "\<forall>v \<in> set visits. load_error v = None \<longrightarrow> late_error v = None \<and>
              (\<forall>r \<in> set (runCustomChecks (snd v) (fst v)). cid r \<noteq> ''page-load'')"
    using count_page_load[OF that] by (simp add: cr)
  from one nu na len one_fail cnt show ?thesis by blast
qed

theorem page_load_failures_witness:
  "\<exists>rep. main
      [(''https://example.org/'',
        \<lparr>goto = None,
         analyze = Inr \<lparr>res_violations = Some [], res_incomplete = Some [], res_passes = Some []\<rparr>,
         checks = (\<lambda>c. Inr [\<lparr>cid = ''page-title-exists'', cr_rule = ''Page MUST have a title'',
                               status = (if c = ''semantics'' then Pass else if c = ''images'' then Fail else Warn),
                               message = ''checked'', cr_chapter = Some c, cr_url = None\<rparr>]),
         mkdir_error = None\<rparr>),
       (''https://example.org/missing'',
        \<lparr>goto = Some ''net::ERR_NAME_NOT_RESOLVED'',
         analyze = Inl ''not reached'', checks = (\<lambda>c. Inr []), mkdir_error = None\<rparr>),
       (''https://example.org/about'',
        \<lparr>goto = None,
         analyze = Inr \<lparr>res_violations = Some [], res_incomplete = Some [], res_passes = Some []\<rparr>,
         checks = (\<lambda>c. Inr []), mkdir_error = None\<rparr>)] = Inr rep \<and>
     length (urls rep) = 2 \<and>
     length (filter (\<lambda>r. cid r = ''page-load'') (customResults rep)) = 1 \<and>
     1 \<le> fail (summary rep) \<and>
     ''https://example.org/missing'' \<notin> set (urls rep) \<and>
     map_of (axeResults rep) ''https://example.org/missing'' = None \<and>
     map message (filter (\<lambda>r. cr_url r = Some ''https://example.org/missing'') (customResults rep))
       = [''net::ERR_NAME_NOT_RESOLVED'']"
proof -
  let ?p1 = "\<lparr>goto = None,
         analyze = Inr \<lparr>res_violations = Some [], res_incomplete = Some [], res_passes = Some []\<rparr>,
         checks = (\<lambda>c. Inr [\<lparr>cid = ''page-title-exists'', cr_rule = ''Page MUST have a title'',
                               status = (if c = ''semantics'' then Pass else if c = ''images'' then Fail else Warn),
                               message = ''checked'', cr_chapter = Some c, cr_url = None\<rparr>]),
         mkdir_error = None\<rparr>"
  let ?p2 = "\<lparr>goto = Some ''net::ERR_NAME_NOT_RESOLVED'',
         analyze = Inl ''not reached'', checks = (\<lambda>c. Inr []), mkdir_error = None\<rparr>"
  let ?p3 = "\<lparr>goto = None,
         analyze = Inr \<lparr>res_violations = Some [], res_incomplete = Some [], res_passes = Some []\<rparr>,
         checks = (\<lambda>c. Inr []), mkdir_error = None\<rparr>"
  let ?vs = "[(''https://example.org/'', ?p1), (''https://example.org/missing'', ?p2),
              (''https://example.org/about'', ?p3)]"
  obtain rep where run: "main ?vs = Inr rep" by (simp add: main_def)
  have dist: "distinct (map fst ?vs)" by simp
  have v: "(''https://example.org/missing'', ?p2) \<in> set ?vs" by simp
  have f: "load_error (''https://example.org/missing'', ?p2) = Some ''net::ERR_NAME_NOT_RESOLVED''"
    by (simp add: load_error_def)
  have l1: "load_error (''https://example.org/'', ?p1) = None"
    by (simp add: load_error_def runAxeScan_empty)
  have l3: "load_error (''https://example.org/about'', ?p3) = None"
    by (simp add: load_error_def runAxeScan_empty)
  have ok: "\<forall>v \<in> set ?vs. load_error v = None \<longrightarrow> late_error v = None \<and>
              (\<forall>r \<in> set (runCustomChecks (snd v) (fst v)). cid r \<noteq> ''page-load'')"
    by (simp add: late_error_def l1 l3 f runCustomChecks_def run_chapter_def)
  note T = page_load_failures[OF run dist v f]
  from T have a: "length (urls rep) = 2" by (simp add: l1 l3 f)
  from T ok have b: "length (filter (\<lambda>r. cid r = ''page-load'') (customResults rep)) = 1"
    by (simp add: l1 l3 f)
  from T have c: "1 \<le> fail (summary rep)" "''https://example.org/missing'' \<notin> set (urls rep)"
    "map_of (axeResults rep) ''https://example.org/missing'' = None" by simp_all
  from T have d: "map message (filter (\<lambda>r. cr_url r = Some ''https://example.org/missing'') (customResults rep))
       = [''net::ERR_NAME_NOT_RESOLVED'']" by simp
  from run a b c d show ?thesis by (intro exI[of _ rep] conjI)
qed

text \<open>A URL that is listed twice is visited twice. When both visits fail to load, the URL
  has two \<^verbatim>\<open>page-load\<close> results; when the first fails and the second loads, the URL is
  in \<^verbatim>\<open>urls\<close>.\<close>

theorem page_load_failures_repeated_url:
  "main [(''https://example.org/missing'',
          \<lparr>goto = Some ''net::ERR_NAME_NOT_RESOLVED'', analyze = Inl ''not reached'',
           checks = (\<lambda>c. Inr []), mkdir_error = None\<rparr>),
         (''https://example.org/missing'',
          \<lparr>goto = Some ''net::ERR_NAME_NOT_RESOLVED'', analyze = Inl ''not reached'',
           checks = (\<lambda>c. Inr []), mkdir_error = None\<rparr>)]
   = Inr \<lparr>urls = [], axeResults = [],
          customResults =
            [\<lparr>cid = ''page-load'', cr_rule = ''Page load'', status = Fail,
              message = ''net::ERR_NAME_NOT_RESOLVED'', cr_chapter = None,
              cr_url = Some ''https://example.org/missing''\<rparr>,
             \<lparr>cid = ''page-load'', cr_rule = ''Page load'', status = Fail,
              message = ''net::ERR_NAME_NOT_RESOLVED'', cr_chapter = None,
              cr_url = Some ''https://example.org/missing''\<rparr>],
          summary = \<lparr>pass = 0, fail = 2, warn = 0\<rparr>\<rparr> \<and>
   map_sum id urls
     (main [(''https://example.org/slow'',
             \<lparr>goto = Some ''Timeout 30000ms exceeded'', analyze = Inl ''not reached'',
              checks = (\<lambda>c. Inr []), mkdir_error = None\<rparr>),
            (''https://example.org/slow'',
             \<lparr>goto = None,
              analyze = Inr \<lparr>res_violations = Some [], res_incomplete = Some [], res_passes = Some []\<rparr>,
              checks = (\<lambda>c. Inr []), mkdir_error = None\<rparr>)])
   = Inr [''https://example.org/slow'']"
  by (simp add: main_def test_url_def page_load_failure_def runAxeScan_empty runCustomChecks_def
      run_chapter_def chapters_def or_empty_def)

lemma chapters_taxonomy: "chapters = CHECKLIST_CHAPTERS"
  by (simp add: chapters_def CHECKLIST_CHAPTERS_def)

text \<open>Numbers and strings in the messages of the adapters.\<close>

lemma decimal_1234: "decimal 1234 = ''1234''"
  by (simp add: decimal.simps)

lemma trim_spaces: "trim '' a b  '' = ''a b''"
  by (simp add: trim_def js_whitespace_def)

text \<open>Every result that an adapter returns carries the chapter key of its module, and
  none has the id \<^verbatim>\<open>page-load\<close>.\<close>

lemma runSemanticChecks_tagged:
  "runSemanticChecks page = Inr rs \<Longrightarrow> list_all (tagged ''semantics'') rs"
  by (auto simp: runSemanticChecks_def await_def Let_def tagged_def split: sum.splits)

lemma runImageChecks_tagged:
  "runImageChecks page = Inr rs \<Longrightarrow> list_all (tagged ''images'') rs"
  by (auto simp: runImageChecks_def await_def Let_def tagged_def split: sum.splits)

lemma runVisualChecks_tagged:
  "runVisualChecks page = Inr rs \<Longrightarrow> list_all (tagged ''visualDesign'') rs"
  by (auto simp: runVisualChecks_def await_def Let_def tagged_def split: sum.splits)

lemma runResponsiveChecks_tagged:
  "runResponsiveChecks page vp = Inr rs \<Longrightarrow> list_all (tagged ''responsive'') rs"
  by (auto simp: runResponsiveChecks_def await_def Let_def tagged_def split: sum.splits option.splits)

lemma runMultimediaChecks_tagged:
  "runMultimediaChecks page = Inr rs \<Longrightarrow> list_all (tagged ''multimedia'') rs"
  by (auto simp: runMultimediaChecks_def await_def Let_def tagged_def split: sum.splits)

lemma runInputMethodChecks_tagged:
  "runInputMethodChecks page = Inr rs \<Longrightarrow> list_all (tagged ''inputMethods'') rs"
  by (auto simp: runInputMethodChecks_def await_def Let_def tagged_def split: sum.splits)

lemma runFormChecks_tagged:
  "runFormChecks page = Inr rs \<Longrightarrow> list_all (tagged ''forms'') rs"
  by (auto simp: runFormChecks_def await_def Let_def tagged_def split: sum.splits)

lemma runDynamicChecks_tagged:
  "runDynamicChecks page = Inr rs \<Longrightarrow> list_all (tagged ''dynamicUpdates'') rs"
  by (auto simp: runDynamicChecks_def await_def Let_def tagged_def split: sum.splits)

lemma adapter_page_fields:
  "goto (adapter_page p doc) = goto p"
  "analyze (adapter_page p doc) = analyze p"
  "mkdir_error (adapter_page p doc) = mkdir_error p"
  by (simp_all add: adapter_page_def)

lemma late_error_no_mkdir: "mkdir_error p = None \<Longrightarrow> late_error (u, p) = None"
  by (simp add: late_error_def split: option.splits sum.splits)

lemma adapters_keys: "map fst (adapters doc) = chapters"
  by (simp add: adapters_def chapters_def)

lemma adapters_tagged:
  "(c, Inr rs) \<in> set (adapters doc) \<Longrightarrow> list_all (tagged c) rs"
  by (auto simp: adapters_def runSemanticChecks_tagged runImageChecks_tagged runVisualChecks_tagged
      runResponsiveChecks_tagged runMultimediaChecks_tagged runInputMethodChecks_tagged
      runFormChecks_tagged runDynamicChecks_tagged)

lemma adapter_page_checks:
  "c \<in> set chapters \<Longrightarrow> (c, checks (adapter_page p doc) c) \<in> set (adapters doc)"
  by (auto simp: adapter_page_def adapters_def chapters_def)

lemma error_id: "c \<in> set chapters \<Longrightarrow> c @ ''-error'' \<noteq> ''page-load''"
  by (auto simp: chapters_def)

lemma run_chapter_adapter_page:
  assumes c: "c \<in> set chapters" and r: "r \<in> set (run_chapter (adapter_page p doc) u c)"
  shows "tagged c r"
proof (cases "checks (adapter_page p doc) c")
  case (Inl msg)
  with r error_id[OF c] show ?thesis by (simp add: run_chapter_def tagged_def)
next
  case (Inr rs)
  with adapter_page_checks[OF c, of p doc] have "list_all (tagged c) rs"
    by (simp add: adapters_tagged)
  with r Inr show ?thesis by (auto simp: run_chapter_def tagged_def list_all_iff)
qed

lemma runCustomChecks_adapter_page:
  assumes "r \<in> set (runCustomChecks (adapter_page p doc) u)"
  shows "\<exists>c \<in> set chapters. tagged c r"
proof -
  from assms obtain c where c: "c \<in> set chapters"
    and r: "r \<in> set (run_chapter (adapter_page p doc) u c)"
    by (auto simp: runCustomChecks_def)
  from run_chapter_adapter_page[OF c r] c show ?thesis by blast
qed

text \<open>With the adapters as its checks, \<^verbatim>\<open>runCustomChecks\<close> is the loop over the pairs of
  the \<^verbatim>\<open>chapters\<close> array.\<close>

lemma runCustomChecks_adapters:
  "runCustomChecks (adapter_page p doc) u =
     concat (map (\<lambda>(chapterId, outcome).
        case outcome of
          Inr results \<Rightarrow> map (\<lambda>r. r\<lparr>cr_url := Some u\<rparr>) results
        | Inl msg \<Rightarrow> [\<lparr>cid = chapterId @ ''-error'', cr_rule = chapterId @ '' checks'',
                        status = Fail, message = msg, cr_chapter = Some chapterId,
                        cr_url = Some u\<rparr>]) (adapters doc))"
  by (simp add: runCustomChecks_def run_chapter_def chapters_def adapters_def adapter_page_def
      split: sum.splits)

text \<open>On a page without meta refresh and without live regions the adapter of chapter 8
  returns a \<^verbatim>\<open>pass\<close> and an \<^verbatim>\<open>info\<close> result.\<close>

lemma runDynamicChecks_plain_page:
  "runDynamicChecks \<lparr>dyn_refreshMeta = Inr False, dyn_liveRegions = Inr 0\<rparr> =
     Inr [\<lparr>cid = ''no-auto-refresh'',
            cr_rule = ''Page MUST NOT refresh or reload automatically'',
            status = Pass, message = ''No meta refresh'',
            cr_chapter = Some ''dynamicUpdates'', cr_url = None\<rparr>,
          \<lparr>cid = ''dynamic-announcements'',
            cr_rule = ''Dynamic content changes SHOULD be announced (aria-live, etc.)'',
            status = Info,
            message = ''Found 0 aria-live region(s) - verify status messages are announced'',
            cr_chapter = Some ''dynamicUpdates'', cr_url = None\<rparr>]"
  by (simp add: runDynamicChecks_def await_def decimal.simps)

text \<open>
  Claim C5, amended. In a run of the eight adapters, every result in \<^verbatim>\<open>customResults\<close>
  but the synthetic \<^verbatim>\<open>page-load\<close> results carries a \<^verbatim>\<open>chapter\<close> that is one of the 8
  chapter keys of the taxonomy, the result written for an adapter that threw included.
  A \<^verbatim>\<open>page-load\<close> result carries no \<^verbatim>\<open>chapter\<close> field.
\<close>

theorem customResults_chapter:
  assumes run: "main (map adapter_visit visits) = Inr rep"
  shows "\<forall>r \<in> set (customResults rep).
           (cid r = ''page-load'' \<and> cr_chapter r = None) \<or>
           (cid r \<noteq> ''page-load'' \<and> (\<exists>c \<in> set CHECKLIST_CHAPTERS. cr_chapter r = Some c))"
proof
  fix r assume r: "r \<in> set (customResults rep)"
  from run have rep: "rep = foldl test_url \<lparr>urls = [], axeResults = [], customResults = [],
                    summary = \<lparr>pass = 0, fail = 0, warn = 0\<rparr>\<rparr> (map adapter_visit visits)"
    by (auto simp: main_def split: if_splits)
  from r obtain v where v: "v \<in> set visits" and rv: "r \<in> set (visit_results (adapter_visit v))"
    by (auto simp: rep foldl_customResults)
  obtain u p doc where vd: "adapter_visit v = (u, adapter_page p doc)"
    by (cases v) (auto simp: adapter_visit_def)
  from rv consider (pl) msg where "r = page_load_result u msg"
    | (custom) "r \<in> set (runCustomChecks (adapter_page p doc) u)"
    by (auto simp: visit_results_def vd split: option.splits)
  then show "(cid r = ''page-load'' \<and> cr_chapter r = None) \<or>
           (cid r \<noteq> ''page-load'' \<and> (\<exists>c \<in> set CHECKLIST_CHAPTERS. cr_chapter r = Some c))"
  proof cases
    case pl
    then show ?thesis by (simp add: page_load_result_def)
  next
    case custom
    from runCustomChecks_adapter_page[OF custom] show ?thesis
      by (auto simp: tagged_def chapters_taxonomy)
  qed
qed

lemma example_ids:
  "map cid (runCustomChecks (adapter_page example_page example_document) ''https://example.org/'')
     = [''page-title-exists'', ''html-lang'', ''landmarks-present'', ''single-main'',
        ''heading-structure'', ''link-text'', ''skip-link'', ''img-alt'', ''link-differentiation'',
        ''focus-indicator'', ''no-horizontal-scroll'', ''viewport-zoom'', ''tabindex-positive'',
        ''touch-target-size'', ''forms-error'', ''no-auto-refresh'', ''dynamic-announcements'']"
  by (simp add: runCustomChecks_adapters adapters_def example_document_def
      runSemanticChecks_def runImageChecks_def runVisualChecks_def runResponsiveChecks_def
      runMultimediaChecks_def runInputMethodChecks_def runFormChecks_def runDynamicChecks_def
      await_def)

theorem customResults_chapter_witness:
  "\<exists>rep. main (map adapter_visit [(''https://example.org/'', example_page, example_document)]) = Inr rep \<and>
         map cid (customResults rep)
           = [''page-title-exists'', ''html-lang'', ''landmarks-present'', ''single-main'',
              ''heading-structure'', ''link-text'', ''skip-link'', ''img-alt'', ''link-differentiation'',
              ''focus-indicator'', ''no-horizontal-scroll'', ''viewport-zoom'', ''tabindex-positive'',
              ''touch-target-size'', ''forms-error'', ''no-auto-refresh'', ''dynamic-announcements''] \<and>
         list_all (\<lambda>r. \<exists>c \<in> set CHECKLIST_CHAPTERS. cr_chapter r = Some c) (customResults rep)"
proof -
  let ?u = "''https://example.org/''"
  let ?vs = "[(?u, example_page, example_document)]"
  obtain rep where run: "main (map adapter_visit ?vs) = Inr rep" by (simp add: main_def)
  note T = customResults_chapter[OF run]
  have le: "load_error (?u, adapter_page example_page example_document) = None"
    by (simp add: load_error_def adapter_page_fields example_page_def runAxeScan_def or_empty_def)
  have la: "late_error (?u, adapter_page example_page example_document) = None"
    by (rule late_error_no_mkdir) (simp add: adapter_page_fields example_page_def)
  from run have "rep = foldl test_url \<lparr>urls = [], axeResults = [], customResults = [],
                    summary = \<lparr>pass = 0, fail = 0, warn = 0\<rparr>\<rparr> (map adapter_visit ?vs)"
    by (simp add: main_def)
  then have "customResults rep = concat (map visit_results (map adapter_visit ?vs))"
    by (simp only: foldl_customResults report.simps append_Nil)
  then have cr: "customResults rep = runCustomChecks (adapter_page example_page example_document) ?u"
    by (simp add: visit_results_def adapter_visit_def le la)
  have ids: "map cid (customResults rep)
           = [''page-title-exists'', ''html-lang'', ''landmarks-present'', ''single-main'',
              ''heading-structure'', ''link-text'', ''skip-link'', ''img-alt'', ''link-differentiation'',
              ''focus-indicator'', ''no-horizontal-scroll'', ''viewport-zoom'', ''tabindex-positive'',
              ''touch-target-size'', ''forms-error'', ''no-auto-refresh'', ''dynamic-announcements'']"
    by (simp only: cr example_ids)
  have np: "\<forall>r \<in> set (customResults rep). cid r \<noteq> ''page-load''"
  proof
    fix r assume "r \<in> set (customResults rep)"
    then have "r \<in> set (runCustomChecks (adapter_page example_page example_document) ?u)"
      by (simp only: cr)
    from runCustomChecks_adapter_page[OF this] show "cid r \<noteq> ''page-load''"
      by (auto simp: tagged_def)
  qed
  from T np have "\<forall>r \<in> set (customResults rep). \<exists>c \<in> set CHECKLIST_CHAPTERS. cr_chapter r = Some c"
    by blast
  then have all: "list_all (\<lambda>r. \<exists>c \<in> set CHECKLIST_CHAPTERS. cr_chapter r = Some c) (customResults rep)"
    by (simp only: list_all_iff)
  from run ids all show ?thesis by (intro exI[of _ rep] conjI)
qed

text \<open>The result recorded for a URL that fails to load has no \<^verbatim>\<open>chapter\<close>.\<close>

theorem page_load_result_without_chapter:
  "main [(''https://example.org/'',
          \<lparr>goto = Some ''net::ERR_NAME_NOT_RESOLVED'',
           analyze = Inr \<lparr>res_violations = Some [], res_incomplete = Some [], res_passes = Some []\<rparr>,
           checks = (\<lambda>c. Inr []),
           mkdir_error = None\<rparr>)]
   = Inr \<lparr>urls = [], axeResults = [],
          customResults = [\<lparr>cid = ''page-load'', cr_rule = ''Page load'', status = Fail,
                            message = ''net::ERR_NAME_NOT_RESOLVED'', cr_chapter = None,
                            cr_url = Some ''https://example.org/''\<rparr>],
          summary = \<lparr>pass = 0, fail = 1, warn = 0\<rparr>\<rparr>"
  by (simp add: main_def test_url_def page_load_failure_def)

section \<open>Remediation lookup and fix order\<close>

text \<open>Where no read of a catalog meets a member of \<^verbatim>\<open>Object.prototype\<close>, the lookup is
  the one of the three steps: the entry of the internal catalog for \<^verbatim>\<open>checkId\<close> when
  there is one (whatever \<^verbatim>\<open>axeRuleId\<close> is), otherwise the entry of the audit-rule catalog
  for \<^verbatim>\<open>axeRuleId\<close> when there is one, and otherwise the generic placeholder; so it is
  for \<^verbatim>\<open>("unknown-id", "unknown-rule")\<close>.\<close>

lemma getRemediation_lookup:
  assumes "checkId \<notin> set Object_prototype_names"
    and "map_of REMEDIATION_MAP checkId = None \<Longrightarrow> axeRuleId \<notin> set Object_prototype_names"
  shows "getRemediation checkId axeRuleId =
           Entry (case map_of REMEDIATION_MAP checkId of
                    Some r \<Rightarrow> r
                  | None \<Rightarrow> (case map_of AXE_REMEDIATION axeRuleId of
                               Some (Some r) \<Rightarrow> r
                             | _ \<Rightarrow> \<lparr>wcag = [],
      snippet = ''Review the issue and apply appropriate fix. See W3C WCAG guidelines.'',
      impact = ''medium'',
      effort = ''moderate''\<rparr>))"
  using assms
  by (cases "map_of REMEDIATION_MAP checkId")
     (auto simp: getRemediation_def js_get_def split: option.splits)

lemma unknown_id: "map_of REMEDIATION_MAP ''unknown-id'' = None"
  by (simp add: REMEDIATION_MAP_def)

lemma unknown_rule: "map_of AXE_REMEDIATION ''unknown-rule'' = None"
  by (simp add: AXE_REMEDIATION_def)

lemma getRemediation_unknown:
  "getRemediation ''unknown-id'' ''unknown-rule'' = Entry \<lparr>wcag = [],
      snippet = ''Review the issue and apply appropriate fix. See W3C WCAG guidelines.'',
      impact = ''medium'',
      effort = ''moderate''\<rparr>"
  using getRemediation_lookup[of "''unknown-id''" "''unknown-rule''"]
  by (simp add: unknown_id unknown_rule Object_prototype_names_def)

lemma getRemediation_known_checkId:
  "map_of REMEDIATION_MAP checkId = Some r \<Longrightarrow> getRemediation checkId axeRuleId = Entry r"
  by (simp add: getRemediation_def js_get_def)

text \<open>
  Claim C9, on the code. \<^verbatim>\<open>getRemediation\<close> does not always return an entry: it means
  to fall back to the placeholder for an id that no catalog knows
  (\<^verbatim>\<open>REMEDIATION_MAP[checkId] || AXE_REMEDIATION[axeRuleId] || {...}\<close>), but for the
  unknown check id \<^verbatim>\<open>constructor\<close> the read of the catalog finds the member of
  \<^verbatim>\<open>Object.prototype\<close> of that name, which is truthy, and returns it: a function with
  no \<^verbatim>\<open>impact\<close>, \<^verbatim>\<open>effort\<close>, \<^verbatim>\<open>wcag\<close> or \<^verbatim>\<open>snippet\<close>, where the claim has the
  placeholder.
\<close>

theorem getRemediation_inherited_member:
  "getRemediation ''constructor'' ''unknown-rule'' = Object_prototype_member ''constructor''"
  by (simp add: getRemediation_def js_get_def REMEDIATION_MAP_def Object_prototype_names_def)

text \<open>
  Claim C10. For an item whose impact is \<^verbatim>\<open>high\<close>, \<^verbatim>\<open>medium\<close> or \<^verbatim>\<open>low\<close> and whose effort
  is \<^verbatim>\<open>simple\<close>, \<^verbatim>\<open>moderate\<close> or \<^verbatim>\<open>complex\<close>, \<^verbatim>\<open>fixOrderScore\<close> is
  \<open>impactRank * 10 + effortRank\<close> with the ranks 0, 1, 2 in that order; and an item with
  impact \<^verbatim>\<open>high\<close> and effort \<^verbatim>\<open>simple\<close> has a strictly lower score than such an item with
  any other combination.
\<close>

theorem fixOrderScore_grid:
  assumes "item_impact i \<in> {''high'', ''medium'', ''low''}"
    and "item_effort i \<in> {''simple'', ''moderate'', ''complex''}"
  shows "fixOrderScore i =
           Number (Num ((if item_impact i = ''high'' then 0 else if item_impact i = ''medium'' then 1 else 2) * 10
                + (if item_effort i = ''simple'' then 0 else if item_effort i = ''moderate'' then 1 else 2)))
         \<and> (item_impact q = ''high'' \<and> item_effort q = ''simple'' \<and>
              (item_impact i, item_effort i) \<noteq> (''high'', ''simple'')
            \<longrightarrow> js_less (fixOrderScore q) (fixOrderScore i))"
  using assms
  by (auto simp: fixOrderScore_def rank_def js_get_def IMPACT_ORDER_def EFFORT_ORDER_def Let_def)

theorem fixOrderScore_grid_witness:
  "fixOrderScore \<lparr>rule = ''Video captions'', item_impact = ''high'', item_effort = ''complex''\<rparr> = Number (Num 2) \<and>
   js_less (fixOrderScore \<lparr>rule = ''Image alt'', item_impact = ''high'', item_effort = ''simple''\<rparr>)
           (fixOrderScore \<lparr>rule = ''Video captions'', item_impact = ''high'', item_effort = ''complex''\<rparr>)"
  using fixOrderScore_grid[of "\<lparr>rule = ''Video captions'', item_impact = ''high'', item_effort = ''complex''\<rparr>"
      "\<lparr>rule = ''Image alt'', item_impact = ''high'', item_effort = ''simple''\<rparr>"]
  by auto

text \<open>Off the grid: an effort that names a member of \<^verbatim>\<open>Object.prototype\<close> makes the
  score a string, an impact that does makes it \<^verbatim>\<open>NaN\<close>.\<close>

lemma fixOrderScore_inherited_effort:
  "fixOrderScore \<lparr>rule = ''Image alt'', item_impact = ''high'', item_effort = ''constructor''\<rparr>
     = Joined (Num 0) ''constructor'' \<and>
   value_text (Joined (Num 0) ''constructor'') = ''0function Object() { [native code] }'' \<and>
   fixOrderScore \<lparr>rule = ''Image alt'', item_impact = ''constructor'', item_effort = ''simple''\<rparr>
     = Number NaN"
  by (simp add: fixOrderScore_def rank_def js_get_def IMPACT_ORDER_def EFFORT_ORDER_def
      Object_prototype_names_def member_text_def decimal.simps)

section \<open>The three phases of the client presentation\<close>

text \<open>On the 3 by 3 grid the three filters leave no item out, and the first excludes the
  other two; the second and third overlap in one cell.\<close>

lemma phases_grid:
  assumes "item_impact i \<in> {''high'', ''medium'', ''low''}"
    and "item_effort i \<in> {''simple'', ''moderate'', ''complex''}"
  shows "quickWins_filter i \<or> mediumEffort_filter i \<or> longTerm_filter i"
    and "\<not> (quickWins_filter i \<and> mediumEffort_filter i)"
    and "\<not> (quickWins_filter i \<and> longTerm_filter i)"
    and "(mediumEffort_filter i \<and> longTerm_filter i) = (item_impact i = ''high'' \<and> item_effort i = ''complex'')"
  using assms
  by (auto simp: quickWins_filter_def mediumEffort_filter_def longTerm_filter_def)

text \<open>
  Claim C1, on the code. The three filters do not partition the grid: an item with
  impact \<^verbatim>\<open>high\<close> and effort \<^verbatim>\<open>complex\<close> (the rating of \<^verbatim>\<open>page-load\<close>,
  \<^verbatim>\<open>video-captions\<close> and \<^verbatim>\<open>flash-alternative\<close> in the catalog) passes the filter of
  phase 2 and the filter of phase 3, and is listed in both.
\<close>

theorem phases_overlap:
  "mediumEffort_filter \<lparr>rule = ''Page load'', item_impact = ''high'', item_effort = ''complex''\<rparr> \<and>
   longTerm_filter \<lparr>rule = ''Page load'', item_impact = ''high'', item_effort = ''complex''\<rparr> \<and>
   mediumEffort [\<lparr>rule = ''Page load'', item_impact = ''high'', item_effort = ''complex''\<rparr>]
     = [\<lparr>rule = ''Page load'', item_impact = ''high'', item_effort = ''complex''\<rparr>] \<and>
   longTerm [\<lparr>rule = ''Page load'', item_impact = ''high'', item_effort = ''complex''\<rparr>]
     = [\<lparr>rule = ''Page load'', item_impact = ''high'', item_effort = ''complex''\<rparr>]"
  by (simp add: mediumEffort_filter_def longTerm_filter_def mediumEffort_def longTerm_def uniqueByRule_def)

section \<open>Disability statistics\<close>

lemma map_fst_assoc_set_known: "k \<in> set (map fst obj) \<Longrightarrow> map fst (assoc_set obj k v) = map fst obj"
proof (induction obj)
  case Nil
  then show ?case by simp
next
  case (Cons a obj)
  show ?case
  proof (cases "fst a = k")
    case True
    then show ?thesis by (cases a) simp
  next
    case False
    with Cons.prems have "k \<in> set (map fst obj)" by auto
    with Cons.IH False show ?thesis by (cases a) simp
  qed
qed

lemma proto_not_disability: "d \<in> set ALL_DISABILITIES \<Longrightarrow> d \<noteq> ''__proto__''"
  by (auto simp: ALL_DISABILITIES_def)

lemma DISABILITY_MAP_range:
  "map_of DISABILITY_MAP k = Some ds \<Longrightarrow> set ds \<subseteq> set ALL_DISABILITIES"
  by (auto simp: DISABILITY_MAP_def ALL_DISABILITIES_def split: if_splits)

lemma Various_known: "''Various'' \<in> set ALL_DISABILITIES"
  by (simp add: ALL_DISABILITIES_def)

lemma disabilities_of_known: "set (disabilities_of k) \<subseteq> set ALL_DISABILITIES"
  using DISABILITY_MAP_range[of k] Various_known
  by (auto simp: disabilities_of_def split: option.splits)

lemma items_known:
  "item \<in> set (MANUAL_VERIFICATION_ITEMS @ ASSISTIVE_TECH_ITEMS) \<Longrightarrow>
     set (or_empty (disabilities item)) \<subseteq> set ALL_DISABILITIES"
  by (auto simp: MANUAL_VERIFICATION_ITEMS_def ASSISTIVE_TECH_ITEMS_def ALL_DISABILITIES_def or_empty_def)

lemma bump_known:
  assumes "known_stats stats" and "d \<in> set ALL_DISABILITIES"
  shows "known_stats (bump stats d)" and "stat (bump stats d) x = stat stats x + (if x = d then 1 else 0)"
proof -
  from assms obtain n where n: "map_of stats d = Some (Num n)" by (auto simp: known_stats_def)
  from assms have k: "d \<in> set (map fst stats)" by (simp add: known_stats_def)
  have b: "bump stats d = assoc_set stats d (Num (n + 1))"
    using n proto_not_disability[OF assms(2)] by (simp add: bump_def js_get_def js_set_def)
  show "known_stats (bump stats d)"
    using assms(1) k by (auto simp: b known_stats_def map_fst_assoc_set_known map_of_assoc_set)
  show "stat (bump stats d) x = stat stats x + (if x = d then 1 else 0)"
    using n by (simp add: b stat_def map_of_assoc_set)
qed

lemma foldl_bump_known:
  "known_stats stats \<Longrightarrow> set ds \<subseteq> set ALL_DISABILITIES \<Longrightarrow>
     known_stats (foldl bump stats ds) \<and>
     (\<forall>x. stat (foldl bump stats ds) x = stat stats x + int (count_list ds x))"
proof (induction ds arbitrary: stats)
  case Nil
  then show ?case by simp
next
  case (Cons d ds)
  then have d: "d \<in> set ALL_DISABILITIES" and ds: "set ds \<subseteq> set ALL_DISABILITIES" by simp_all
  from bump_known[OF Cons.prems(1) d] Cons.IH[OF _ ds, of "bump stats d"]
  show ?case by auto
qed

lemma count_result_Inr:
  assumes "known_stats stats" and "count_result stats r = Inr stats'"
  shows "known_stats stats' \<and> (\<forall>x. stat stats' x = stat stats x + int (count_list (disabilities_of (cid r)) x))"
proof -
  from assms(2) have "stats' = foldl bump stats (disabilities_of (cid r))"
    by (auto simp: count_result_def js_get_def disabilities_of_def split: option.splits if_splits)
  with foldl_bump_known[OF assms(1) disabilities_of_known[of "cid r"]] show ?thesis by simp
qed

lemma forEach_count_result:
  "known_stats stats \<Longrightarrow> forEach count_result stats rs = Inr stats' \<Longrightarrow>
     known_stats stats' \<and>
     (\<forall>x. stat stats' x = stat stats x + (\<Sum>r\<leftarrow>rs. int (count_list (disabilities_of (cid r)) x)))"
proof (induction rs arbitrary: stats)
  case Nil
  then show ?case by simp
next
  case (Cons r rs)
  from Cons.prems(2) obtain s1 where a: "count_result stats r = Inr s1"
    and b: "forEach count_result s1 rs = Inr stats'"
    by (auto split: sum.splits)
  from count_result_Inr[OF Cons.prems(1) a] Cons.IH[OF _ b] show ?case by auto
qed

lemma foldl_count_item:
  "known_stats stats \<Longrightarrow> \<forall>item \<in> set items. set (or_empty (disabilities item)) \<subseteq> set ALL_DISABILITIES \<Longrightarrow>
     known_stats (foldl count_item stats items) \<and>
     (\<forall>x. stat (foldl count_item stats items) x
            = stat stats x + (\<Sum>item\<leftarrow>items. int (count_list (or_empty (disabilities item)) x)))"
proof (induction items arbitrary: stats)
  case Nil
  then show ?case by simp
next
  case (Cons i items)
  then have i: "set (or_empty (disabilities i)) \<subseteq> set ALL_DISABILITIES" by simp
  from foldl_bump_known[OF Cons.prems(1) i] Cons.IH[of "count_item stats i"] Cons.prems(2)
  show ?case by (auto simp: count_item_def)
qed

lemma count_axe_known:
  assumes "known_stats stats"
  shows "known_stats (count_axe n stats data)"
    and "stat (count_axe n stats data) x = stat stats x +
           (if x = ''Various'' then int (length (or_empty (data_violations data)) * max 1 n) else 0)"
proof -
  from assms Various_known obtain m where m: "map_of stats ''Various'' = Some (Num m)"
    by (auto simp: known_stats_def)
  from assms Various_known have k: "''Various'' \<in> set (map fst stats)" by (simp add: known_stats_def)
  have mx: "max 1 (if n = 0 then 1 else n) = max 1 n" by simp
  have c: "count_axe n stats data =
      assoc_set stats ''Various'' (Num (m + int (length (or_empty (data_violations data)) * max 1 n)))"
    using m by (simp add: count_axe_def js_get_def js_set_def mx)
  show "known_stats (count_axe n stats data)"
    using assms k by (auto simp: c known_stats_def map_fst_assoc_set_known map_of_assoc_set)
  show "stat (count_axe n stats data) x = stat stats x +
           (if x = ''Various'' then int (length (or_empty (data_violations data)) * max 1 n) else 0)"
    using m by (simp add: c stat_def map_of_assoc_set)
qed

lemma foldl_count_axe:
  "known_stats stats \<Longrightarrow>
     known_stats (foldl (count_axe n) stats ds) \<and>
     (\<forall>x. stat (foldl (count_axe n) stats ds) x = stat stats x +
           (if x = ''Various'' then (\<Sum>data\<leftarrow>ds. int (length (or_empty (data_violations data)) * max 1 n)) else 0))"
proof (induction ds arbitrary: stats)
  case Nil
  then show ?case by simp
next
  case (Cons d ds)
  from count_axe_known[OF Cons.prems, of n d] Cons.IH[of "count_axe n stats d"]
  show ?case by auto
qed

lemma init_known: "known_stats (map (\<lambda>d. (d, Num 0)) ALL_DISABILITIES)"
  by (simp add: known_stats_def comp_def map_of_map_restrict)

lemma init_stat: "stat (map (\<lambda>d. (d, Num 0)) ALL_DISABILITIES) x = 0"
  by (cases "x \<in> set ALL_DISABILITIES") (simp_all add: stat_def map_of_map_restrict map_of_eq_None_iff comp_def image_iff)

lemma disabilityStats_returns:
  assumes "\<forall>r \<in> set (customResults reportData). cid r \<notin> set Object_prototype_names"
  shows "\<exists>stats. disabilityStats reportData = Inr stats"
proof -
  have "\<exists>s'. forEach count_result s rs = Inr s'" if "\<forall>r \<in> set rs. cid r \<notin> set Object_prototype_names" for s rs
    using that
  proof (induction rs arbitrary: s)
    case Nil
    then show ?case by simp
  next
    case (Cons r rs)
    then have "cid r \<notin> set Object_prototype_names" by simp
    then obtain s1 where "count_result s r = Inr s1"
      by (cases "map_of DISABILITY_MAP (cid r)") (simp_all add: count_result_def js_get_def)
    with Cons show ?case by simp
  qed
  from this[OF assms] obtain s1 where
    "forEach count_result (map (\<lambda>d. (d, Num 0)) ALL_DISABILITIES) (customResults reportData) = Inr s1"
    by blast
  then show ?thesis by (simp add: disabilityStats_def)
qed

text \<open>
  Claim C8. The statistics that \<^verbatim>\<open>generateReport\<close> computes hold a number for exactly
  the known disability categories, and the number of a category is the sum of: 1 for
  each result in \<^verbatim>\<open>customResults\<close> whose check id lists the category in the catalog (an
  id without an entry lists \<^verbatim>\<open>Various\<close>), so once per result and not once per tag of
  the id; 1 for each item of the manual-verification and assistive-technology
  checklists that lists the category; and, for \<^verbatim>\<open>Various\<close> only,
  \<open>violationCount * max(1, urlCount)\<close> for the audit results of each URL.
\<close>

theorem disabilityStats_counts:
  assumes "disabilityStats reportData = Inr stats"
  shows "map fst stats = ALL_DISABILITIES \<and>
     (\<forall>d \<in> set ALL_DISABILITIES.
        map_of stats d = Some (Num (
          (\<Sum>r\<leftarrow>customResults reportData. int (count_list (disabilities_of (cid r)) d))
          + (\<Sum>item\<leftarrow>MANUAL_VERIFICATION_ITEMS @ ASSISTIVE_TECH_ITEMS.
                int (count_list (or_empty (disabilities item)) d))
          + (if d = ''Various''
             then (\<Sum>data\<leftarrow>map snd (axeResults reportData).
                      int (length (or_empty (data_violations data)) * max 1 (length (urls reportData))))
             else 0))))"
proof -
  let ?s0 = "map (\<lambda>d. (d, Num 0)) ALL_DISABILITIES"
  from assms obtain s1 where
    a: "forEach count_result ?s0 (customResults reportData) = Inr s1" and
    b: "stats = foldl (count_axe (length (urls reportData)))
                 (foldl count_item s1 (MANUAL_VERIFICATION_ITEMS @ ASSISTIVE_TECH_ITEMS))
                 (map snd (axeResults reportData))"
    by (auto simp: disabilityStats_def split: sum.splits)
  note A = forEach_count_result[OF init_known a]
  from A have k1: "known_stats s1" by simp
  have items: "\<forall>item \<in> set (MANUAL_VERIFICATION_ITEMS @ ASSISTIVE_TECH_ITEMS).
                 set (or_empty (disabilities item)) \<subseteq> set ALL_DISABILITIES"
    using items_known by blast
  note B = foldl_count_item[OF k1 items]
  from B have k2: "known_stats (foldl count_item s1 (MANUAL_VERIFICATION_ITEMS @ ASSISTIVE_TECH_ITEMS))"
    by simp
  note C = foldl_count_axe[OF k2, of "length (urls reportData)" "map snd (axeResults reportData)"]
  from C have k3: "known_stats stats" by (simp add: b)
  have st: "stat stats d =
          (\<Sum>r\<leftarrow>customResults reportData. int (count_list (disabilities_of (cid r)) d))
          + (\<Sum>item\<leftarrow>MANUAL_VERIFICATION_ITEMS @ ASSISTIVE_TECH_ITEMS.
                int (count_list (or_empty (disabilities item)) d))
          + (if d = ''Various''
             then (\<Sum>data\<leftarrow>map snd (axeResults reportData).
                      int (length (or_empty (data_violations data)) * max 1 (length (urls reportData))))
             else 0)" for d
    using A B C by (simp add: b init_stat)
  have "map_of stats d = Some (Num (stat stats d))" if "d \<in> set ALL_DISABILITIES" for d
    using k3 that by (auto simp: known_stats_def stat_def)
  with st k3 show ?thesis by (simp add: known_stats_def)
qed

lemma static_Blindness:
  "(\<Sum>item\<leftarrow>MANUAL_VERIFICATION_ITEMS @ ASSISTIVE_TECH_ITEMS.
        int (count_list (or_empty (disabilities item)) ''Blindness'')) = 13"
  by (simp add: MANUAL_VERIFICATION_ITEMS_def ASSISTIVE_TECH_ITEMS_def or_empty_def)

lemma static_Dexterity:
  "(\<Sum>item\<leftarrow>MANUAL_VERIFICATION_ITEMS @ ASSISTIVE_TECH_ITEMS.
        int (count_list (or_empty (disabilities item)) ''Dexterity/Motor Disabilities'')) = 7"
  by (simp add: MANUAL_VERIFICATION_ITEMS_def ASSISTIVE_TECH_ITEMS_def or_empty_def)

lemma static_Various:
  "(\<Sum>item\<leftarrow>MANUAL_VERIFICATION_ITEMS @ ASSISTIVE_TECH_ITEMS.
        int (count_list (or_empty (disabilities item)) ''Various'')) = 0"
  by (simp add: MANUAL_VERIFICATION_ITEMS_def ASSISTIVE_TECH_ITEMS_def or_empty_def)

lemma skip_link: "disabilities_of ''skip-link'' = [''Blindness'', ''Dexterity/Motor Disabilities'']"
  by (simp add: disabilities_of_def DISABILITY_MAP_def)

lemma unmapped: "disabilities_of ''forms-error'' = [''Various'']"
  by (simp add: disabilities_of_def DISABILITY_MAP_def)

theorem disabilityStats_counts_witness:
  "\<exists>stats. disabilityStats
      \<lparr>urls = [''https://example.org/'', ''https://example.org/about''],
       axeResults =
         [(''https://example.org/'',
           \<lparr>url = ''https://example.org/'',
            data_violations = Some [\<lparr>rid = ''label'', help_text = ''Form elements must have labels'',
                                    tags = Some [''cat.forms''], nodes = 2\<rparr>],
            data_incomplete = Some [], data_passes = Some [], byChapter = []\<rparr>),
          (''https://example.org/about'',
           \<lparr>url = ''https://example.org/about'',
            data_violations = Some [\<lparr>rid = ''label'', help_text = ''Form elements must have labels'',
                                    tags = Some [''cat.forms''], nodes = 1\<rparr>,
                                   \<lparr>rid = ''image-alt'', help_text = ''Images must have alternate text'',
                                    tags = Some [''cat.text-alternatives''], nodes = 3\<rparr>],
            data_incomplete = Some [], data_passes = Some [], byChapter = []\<rparr>)],
       customResults =
         [\<lparr>cid = ''skip-link'', cr_rule = ''Skip link SHOULD be provided'', status = Warn,
           message = ''No skip link found'', cr_chapter = Some ''semantics'',
           cr_url = Some ''https://example.org/''\<rparr>,
          \<lparr>cid = ''skip-link'', cr_rule = ''Skip link SHOULD be provided'', status = Warn,
           message = ''No skip link found'', cr_chapter = Some ''semantics'',
           cr_url = Some ''https://example.org/about''\<rparr>,
          \<lparr>cid = ''forms-error'', cr_rule = ''forms checks'', status = Fail,
           message = ''Execution context was destroyed'', cr_chapter = Some ''forms'',
           cr_url = Some ''https://example.org/about''\<rparr>],
       summary = \<lparr>pass = 0, fail = 1, warn = 2\<rparr>\<rparr> = Inr stats \<and>
     map fst stats = ALL_DISABILITIES \<and>
     map_of stats ''Blindness'' = Some (Num (13 + 2)) \<and>
     map_of stats ''Dexterity/Motor Disabilities'' = Some (Num (7 + 2)) \<and>
     map_of stats ''Various'' = Some (Num (1 + (1 * 2 + 2 * 2)))"
proof -
  let ?rep = "\<lparr>urls = [''https://example.org/'', ''https://example.org/about''],
       axeResults =
         [(''https://example.org/'',
           \<lparr>url = ''https://example.org/'',
            data_violations = Some [\<lparr>rid = ''label'', help_text = ''Form elements must have labels'',
                                    tags = Some [''cat.forms''], nodes = 2\<rparr>],
            data_incomplete = Some [], data_passes = Some [], byChapter = []\<rparr>),
          (''https://example.org/about'',
           \<lparr>url = ''https://example.org/about'',
            data_violations = Some [\<lparr>rid = ''label'', help_text = ''Form elements must have labels'',
                                    tags = Some [''cat.forms''], nodes = 1\<rparr>,
                                   \<lparr>rid = ''image-alt'', help_text = ''Images must have alternate text'',
                                    tags = Some [''cat.text-alternatives''], nodes = 3\<rparr>],
            data_incomplete = Some [], data_passes = Some [], byChapter = []\<rparr>)],
       customResults =
         [\<lparr>cid = ''skip-link'', cr_rule = ''Skip link SHOULD be provided'', status = Warn,
           message = ''No skip link found'', cr_chapter = Some ''semantics'',
           cr_url = Some ''https://example.org/''\<rparr>,
          \<lparr>cid = ''skip-link'', cr_rule = ''Skip link SHOULD be provided'', status = Warn,
           message = ''No skip link found'', cr_chapter = Some ''semantics'',
           cr_url = Some ''https://example.org/about''\<rparr>,
          \<lparr>cid = ''forms-error'', cr_rule = ''forms checks'', status = Fail,
           message = ''Execution context was destroyed'', cr_chapter = Some ''forms'',
           cr_url = Some ''https://example.org/about''\<rparr>],
       summary = \<lparr>pass = 0, fail = 1, warn = 2\<rparr>\<rparr>"
  have "\<exists>stats. disabilityStats ?rep = Inr stats"
    by (rule disabilityStats_returns) (simp add: Object_prototype_names_def)
  then obtain stats where run: "disabilityStats ?rep = Inr stats" by blast
  note T = disabilityStats_counts[OF run]
  have m: "''Blindness'' \<in> set ALL_DISABILITIES" "''Dexterity/Motor Disabilities'' \<in> set ALL_DISABILITIES"
    "''Various'' \<in> set ALL_DISABILITIES"
    by (simp_all add: ALL_DISABILITIES_def)
  from T have k: "map fst stats = ALL_DISABILITIES" by simp
  have a: "map_of stats ''Blindness'' = Some (Num (13 + 2))"
    using T[THEN conjunct2, THEN bspec, OF m(1)] unfolding static_Blindness
    by (simp add: skip_link unmapped)
  have b: "map_of stats ''Dexterity/Motor Disabilities'' = Some (Num (7 + 2))"
    using T[THEN conjunct2, THEN bspec, OF m(2)] unfolding static_Dexterity
    by (simp add: skip_link unmapped)
  have c: "map_of stats ''Various'' = Some (Num (1 + (1 * 2 + 2 * 2)))"
    using T[THEN conjunct2, THEN bspec, OF m(3)] unfolding static_Various
    by (simp add: skip_link unmapped or_empty_def)
  from run k a b c show ?thesis by (intro exI[of _ stats] conjI)
qed

section \<open>Score\<close>

declare bitlen.simps [simp del]

lemma bitlen_bounds: "0 < n \<Longrightarrow> 2 ^ (bitlen n - 1) \<le> n \<and> n < 2 ^ bitlen n"
proof (induction n rule: bitlen.induct)
  case (1 n)
  show ?case
  proof (cases "n div 2 = 0")
    case True
    with "1.prems" have "n = 1" by presburger
    moreover have "bitlen (Suc 0) = Suc 0"
      by (simp add: bitlen.simps[of "Suc 0"] bitlen.simps[of 0])
    ultimately show ?thesis by simp
  next
    case False
    with 1 have ih: "2 ^ (bitlen (n div 2) - 1) \<le> n div 2" "n div 2 < 2 ^ bitlen (n div 2)"
      by auto
    from False have pos: "0 < bitlen (n div 2)" by (simp add: bitlen.simps[of "n div 2"])
    have b: "bitlen n = Suc (bitlen (n div 2))" using "1.prems" by (simp add: bitlen.simps[of n])
    have "2 ^ (bitlen n - 1) = 2 * 2 ^ (bitlen (n div 2) - 1)"
      using b pos by (cases "bitlen (n div 2)") auto
    also have "\<dots> \<le> 2 * (n div 2)" using ih(1) by simp
    also have "\<dots> \<le> n" by simp
    finally have lo: "2 ^ (bitlen n - 1) \<le> n" .
    have "n < 2 * (n div 2) + 2" by presburger
    also have "\<dots> \<le> 2 * 2 ^ bitlen (n div 2)" using ih(2) by simp
    also have "\<dots> = 2 ^ bitlen n" using b by simp
    finally show ?thesis using lo by simp
  qed
qed

lemma bitlen_pos: "0 < n \<Longrightarrow> 0 < bitlen n"
  by (simp add: bitlen.simps[of n])

lemma ilog2_bounds:
  assumes "0 < q"
  shows "2 powi (ilog2 q) \<le> q" and "q < 2 powi (ilog2 q + 1)"
proof -
  have "2 powi (ilog2 q) \<le> q \<and> q < 2 powi (ilog2 q + 1)"
  proof (cases "1 \<le> q")
    case True
    define n where "n = nat \<lfloor>q\<rfloor>"
    from True have n1: "0 < n" by (simp add: n_def)
    have "0 \<le> \<lfloor>q\<rfloor>" using True by simp
    then have "rat_of_nat n = of_int \<lfloor>q\<rfloor>" by (simp add: n_def)
    then have nq: "rat_of_nat n \<le> q" "q < rat_of_nat n + 1"
      using floor_correct[of q] by simp_all
    from bitlen_bounds[OF n1] have b: "2 ^ (bitlen n - 1) \<le> n" "n < 2 ^ bitlen n" by auto
    have il: "ilog2 q = int (bitlen n - 1)"
      using True bitlen_pos[OF n1] by (simp add: ilog2_def n_def)
    have p1: "(2::rat) ^ (bitlen n - 1) \<le> rat_of_nat n"
      using b(1) by (metis of_nat_le_iff of_nat_numeral of_nat_power)
    have e1: "2 powi (ilog2 q) = (2::rat) ^ (bitlen n - 1)" by (simp add: il)
    have lo: "2 powi (ilog2 q) \<le> q" using p1 nq(1) e1 by linarith
    have "n + 1 \<le> 2 ^ bitlen n" using b(2) by simp
    then have "rat_of_nat (n + 1) \<le> 2 ^ bitlen n"
      by (metis of_nat_le_iff of_nat_numeral of_nat_power)
    then have p2: "rat_of_nat n + 1 \<le> 2 ^ bitlen n" by simp
    have "ilog2 q + 1 = int (bitlen n)" using il bitlen_pos[OF n1] by simp
    then have e2: "2 powi (ilog2 q + 1) = (2::rat) ^ bitlen n" by simp
    have "q < 2 powi (ilog2 q + 1)" using p2 nq(2) e2 by linarith
    with lo show ?thesis by simp
  next
    case False
    then have q1: "q < 1" by simp
    define x where "x = 1 / q"
    have x1: "1 < x" using assms q1 by (simp add: x_def)
    define m where "m = nat (\<lceil>x\<rceil> - 1)"
    have c2: "2 \<le> \<lceil>x\<rceil>" using x1 by (simp add: le_ceiling_iff)
    then have m1: "0 < m" by (simp add: m_def)
    have mx: "rat_of_nat m < x" "x \<le> rat_of_nat m + 1"
    proof -
      have "rat_of_nat m = of_int (\<lceil>x\<rceil> - 1)" using c2 by (simp add: m_def)
      then show "rat_of_nat m < x" "x \<le> rat_of_nat m + 1" by (simp_all add: ceiling_correct)
    qed
    from bitlen_bounds[OF m1] have b: "2 ^ (bitlen m - 1) \<le> m" "m < 2 ^ bitlen m" by auto
    have il: "ilog2 q = - int (bitlen m)" using False by (simp add: ilog2_def m_def x_def)
    have p1: "(2::rat) ^ (bitlen m - 1) \<le> rat_of_nat m"
      using b(1) by (metis of_nat_le_iff of_nat_numeral of_nat_power)
    have lt: "(2::rat) ^ (bitlen m - 1) < x" using p1 mx(1) by linarith
    have "m + 1 \<le> 2 ^ bitlen m" using b(2) by simp
    then have "rat_of_nat (m + 1) \<le> 2 ^ bitlen m"
      by (metis of_nat_le_iff of_nat_numeral of_nat_power)
    then have p2: "rat_of_nat m + 1 \<le> 2 ^ bitlen m" by simp
    have le: "x \<le> 2 ^ bitlen m" using p2 mx(2) by linarith
    have qx: "q = 1 / x" using assms by (simp add: x_def)
    have "1 / 2 ^ bitlen m \<le> q"
      unfolding qx using le x1 by (simp add: frac_le)
    then have lo: "2 powi (ilog2 q) \<le> q"
      by (simp add: il power_int_minus divide_inverse)
    have "q < 1 / 2 ^ (bitlen m - 1)"
      unfolding qx using lt by (simp add: frac_less2)
    moreover have "ilog2 q + 1 = - int (bitlen m - 1)" using il bitlen_pos[OF m1] by simp
    ultimately have "q < 2 powi (ilog2 q + 1)"
      by (simp add: power_int_minus divide_inverse)
    with lo show ?thesis by simp
  qed
  then show "2 powi (ilog2 q) \<le> q" and "q < 2 powi (ilog2 q + 1)" by simp_all
qed

lemma round_half_even_error: "\<bar>of_int (round_half_even x) - x\<bar> \<le> 1 / 2"
proof -
  define f where "f = \<lfloor>x\<rfloor>"
  have b: "of_int f \<le> x" "x < of_int f + 1"
    using floor_correct[of x] by (simp_all add: f_def)
  have r: "round_half_even x =
     (if x - of_int f < 1 / 2 then f
      else if 1 / 2 < x - of_int f then f + 1
      else if even f then f else f + 1)"
    by (simp add: round_half_even_def f_def)
  show ?thesis
  proof (cases "x - of_int f < 1 / 2")
    case True
    with b r show ?thesis by simp
  next
    case False
    then have "round_half_even x = f \<and> x - of_int f = 1 / 2 \<or> round_half_even x = f + 1"
      using r by auto
    with b False show ?thesis by auto
  qed
qed

lemma round_half_even_of_int: "round_half_even (of_int z) = z"
  by (simp add: round_half_even_def)

lemma fl_error:
  assumes "0 < q"
  shows "\<bar>fl q - q\<bar> \<le> q / 2 ^ 53"
proof -
  define s where "s = (2::rat) powi (ilog2 q - 52)"
  define m where "m = round_half_even (q / s)"
  have sp: "0 < s" by (simp add: s_def)
  have "s = 2 powi (ilog2 q) / 2 ^ 52" by (simp add: s_def power_int_diff)
  with ilog2_bounds(1)[OF assms] have sq: "s \<le> q / 2 ^ 52"
    by (simp add: divide_right_mono)
  have f: "fl q = of_int m * s" using assms by (simp add: fl_def s_def m_def)
  have "fl q - q = s * (of_int m - q / s)" using sp by (simp add: f field_simps)
  then have "\<bar>fl q - q\<bar> = s * \<bar>of_int m - q / s\<bar>" using sp by (simp add: abs_mult)
  also have "\<dots> \<le> s * (1 / 2)"
    using round_half_even_error[of "q / s"] sp unfolding m_def by (intro mult_left_mono) simp_all
  also have "\<dots> \<le> (q / 2 ^ 52) * (1 / 2)" using sq by simp
  also have "\<dots> = q / 2 ^ 53" by simp
  finally show ?thesis .
qed

lemma fl_of_nat:
  assumes "n < 2 ^ 53"
  shows "fl (of_nat n) = of_nat n"
proof (cases "n = 0")
  case True
  then show ?thesis by (simp add: fl_def)
next
  case False
  then have n0: "0 < n" by simp
  from bitlen_bounds[OF n0] assms have "(2::nat) ^ (bitlen n - 1) < 2 ^ 53" by linarith
  then have "bitlen n - 1 < 53" by (simp only: power_strict_increasing_iff[of 2] one_less_numeral_iff semiring_norm)
  then have b53: "bitlen n \<le> 53" by simp
  define k where "k = 53 - bitlen n"
  have q1: "1 \<le> rat_of_nat n" using n0 by simp
  have il: "ilog2 (of_nat n) - 52 = - int k"
    using q1 b53 bitlen_pos[OF n0] by (simp add: ilog2_def k_def)
  have s: "(2::rat) powi (ilog2 (of_nat n) - 52) = 1 / 2 ^ k"
    by (simp add: il power_int_minus divide_inverse)
  have "rat_of_nat n / (1 / 2 ^ k) = of_int (int n * 2 ^ k)" by simp
  then have "round_half_even (rat_of_nat n / (1 / 2 ^ k)) = int n * 2 ^ k"
    by (simp only: round_half_even_of_int)
  then show ?thesis using n0 by (simp add: fl_def s)
qed

lemma total_exact:
  assumes "n_pass + n_fail + n_warn + n_violations < 2 ^ 53"
  shows "fl (fl (fl (of_nat n_pass + of_nat n_fail) + of_nat n_warn) + of_nat n_violations)
           = of_nat (n_pass + n_fail + n_warn + n_violations)"
proof -
  have a: "fl (of_nat n_pass + of_nat n_fail) = of_nat (n_pass + n_fail)"
    using fl_of_nat[of "n_pass + n_fail"] assms by simp
  have b: "fl (of_nat (n_pass + n_fail) + of_nat n_warn) = of_nat (n_pass + n_fail + n_warn)"
    using fl_of_nat[of "n_pass + n_fail + n_warn"] assms by simp
  have c: "fl (of_nat (n_pass + n_fail + n_warn) + of_nat n_violations) = of_nat (n_pass + n_fail + n_warn + n_violations)"
    using fl_of_nat[of "n_pass + n_fail + n_warn + n_violations"] assms by simp
  show ?thesis by (simp only: a b c)
qed

lemma percent_error:
  assumes "0 \<le> q" "q \<le> 1"
  shows "\<bar>fl (fl q * 100) - 100 * q\<bar> \<le> 1 / 2 ^ 45"
proof (cases "q = 0")
  case True
  then show ?thesis by (simp add: fl_def)
next
  case False
  with assms have q0: "0 < q" by simp
  define x where "x = fl q"
  have ex: "\<bar>x - q\<bar> \<le> q / 2 ^ 53" unfolding x_def by (rule fl_error[OF q0])
  have "q / 2 ^ 53 < q" using q0 by simp
  with ex have x0: "0 < x" by linarith
  have q53: "q / 2 ^ 53 \<le> 1 / 2 ^ 53" using assms(2) by (simp add: divide_right_mono)
  have "(1::rat) / 2 ^ 53 \<le> 1 / 100" by simp
  with ex q53 assms(2) have x2: "x * 100 \<le> 101" by linarith
  have ey: "\<bar>fl (x * 100) - x * 100\<bar> \<le> x * 100 / 2 ^ 53"
    using fl_error[of "x * 100"] x0 by simp
  have "x * 100 / 2 ^ 53 \<le> 101 / 2 ^ 53" using x2 by (simp add: divide_right_mono)
  with ey have ey': "\<bar>fl (x * 100) - x * 100\<bar> \<le> 101 / 2 ^ 53" by linarith
  have ex': "\<bar>x - q\<bar> \<le> 1 / 2 ^ 53" using ex q53 by linarith
  have "\<bar>fl (x * 100) - 100 * q\<bar> \<le> 201 / 2 ^ 53" using ex' ey' by linarith
  also have "\<dots> \<le> 1 / 2 ^ 45" by simp
  finally show ?thesis by (simp add: x_def)
qed

lemma Math_round_error: "\<bar>of_int (Math_round y) - y\<bar> \<le> 1 / 2"
  using floor_correct[of "y + 1 / 2"] unfolding Math_round_def by linarith

lemma scoreClamp_error:
  assumes "n_pass + n_fail + n_warn + n_violations < 2 ^ 53"
  shows "(n_pass + n_fail + n_warn + n_violations = 0 \<longrightarrow>
            scoreClamp n_pass n_fail n_warn n_violations = 100) \<and>
         (0 < n_pass + n_fail + n_warn + n_violations \<longrightarrow>
            \<bar>of_int (scoreClamp n_pass n_fail n_warn n_violations)
               - 100 * of_nat n_pass / of_nat (n_pass + n_fail + n_warn + n_violations)\<bar>
              \<le> (1 / 2 + 1 / 2 ^ 45 :: rat)) \<and>
         0 \<le> scoreClamp n_pass n_fail n_warn n_violations \<and>
         scoreClamp n_pass n_fail n_warn n_violations \<le> 100"
proof -
  define t where "t = n_pass + n_fail + n_warn + n_violations"
  have tot: "fl (fl (fl (of_nat n_pass + of_nat n_fail) + of_nat n_warn) + of_nat n_violations)
               = of_nat t"
    unfolding t_def by (rule total_exact[OF assms])
  have zero: "scoreClamp n_pass n_fail n_warn n_violations = 100" if "t = 0"
    using that tot by (simp add: scoreClamp_def score_def)
  have near: "\<bar>of_int (scoreClamp n_pass n_fail n_warn n_violations) - 100 * of_nat n_pass / of_nat t\<bar>
              \<le> (1 / 2 + 1 / 2 ^ 45 :: rat)" if tp: "0 < t"
  proof -
    define q :: rat where "q = of_nat n_pass / of_nat t"
    have "n_pass \<le> t" by (simp add: t_def)
    then have q01: "0 \<le> q" "q \<le> 1" using tp by (simp_all add: q_def)
    define y where "y = fl (fl q * 100)"
    have sc: "score n_pass n_fail n_warn n_violations = Math_round y"
      using tp tot by (simp add: score_def y_def q_def)
    have e1: "\<bar>y - 100 * q\<bar> \<le> 1 / 2 ^ 45" unfolding y_def by (rule percent_error[OF q01])
    have e2: "\<bar>of_int (Math_round y) - y\<bar> \<le> 1 / 2" by (rule Math_round_error)
    have E: "0 \<le> 100 * q" "100 * q \<le> 100" using q01 by simp_all
    have e3: "\<bar>rat_of_int (Math_round y) - 100 * q\<bar> \<le> 1 / 2 + 1 / 2 ^ 45"
      using e1 e2 by linarith
    have small: "(1 / 2 + 1 / 2 ^ 45 :: rat) < 1" by simp
    have "- 1 < rat_of_int (Math_round y)" "rat_of_int (Math_round y) < 101"
      using e3 E small by linarith+
    then have "0 \<le> Math_round y" "Math_round y \<le> 100" by linarith+
    then have "scoreClamp n_pass n_fail n_warn n_violations = Math_round y"
      by (simp add: scoreClamp_def sc)
    with e3 show ?thesis by (simp only: q_def mult.commute times_divide_eq_left)
  qed
  have range: "0 \<le> scoreClamp n_pass n_fail n_warn n_violations \<and>
         scoreClamp n_pass n_fail n_warn n_violations \<le> 100"
    by (simp add: scoreClamp_def)
  from zero near range show ?thesis unfolding t_def by blast
qed

lemma nearest_unique:
  fixes c :: int and t :: nat and p :: nat
  assumes t0: "0 < t" and t44: "t < 2 ^ 44"
    and near: "\<bar>rat_of_int c - 100 * of_nat p / of_nat t\<bar> \<le> 1 / 2 + 1 / 2 ^ 45"
    and notie: "rat_of_int \<lfloor>100 * rat_of_nat p / of_nat t\<rfloor> + 1 / 2 \<noteq> 100 * of_nat p / of_nat t"
  shows "c = Math_round (100 * of_nat p / of_nat t)"
proof -
  define E :: rat where "E = 100 * of_nat p / of_nat t"
  define N :: int where "N = 200 * int p + int t"
  define D :: int where "D = 2 * int t"
  define r where "r = N div D"
  define m where "m = N mod D"
  have D0: "0 < D" using t0 by (simp add: D_def)
  have EN: "E + 1 / 2 = of_int N / of_int D"
    using t0 by (simp add: E_def N_def D_def field_simps)
  have rr: "Math_round E = r"
    unfolding Math_round_def EN r_def by (rule floor_divide_of_int_eq)
  have Nrm: "N = D * r + m" by (simp add: r_def m_def)
  have m_bounds: "0 \<le> m" "m < D" using D0 by (simp_all add: m_def)
  have split: "E + 1 / 2 = of_int r + of_int m / of_int D"
    unfolding EN using D0 by (simp add: Nrm field_simps)
  have m0: "m \<noteq> 0"
  proof
    assume "m = 0"
    with split have e: "E = of_int r - 1 / 2" by simp
    then have "\<lfloor>E\<rfloor> = r - 1" by (simp add: floor_unique)
    with e have "rat_of_int \<lfloor>E\<rfloor> + 1 / 2 = E" by simp
    with notie show False by (simp add: E_def)
  qed
  with m_bounds have m1: "1 \<le> m" "m \<le> D - 1" by simp_all
  have Dr: "0 < rat_of_int D" using D0 by simp
  have lo: "1 / rat_of_int D \<le> of_int m / of_int D"
    using m1(1) Dr by (simp add: divide_right_mono)
  have "rat_of_int m \<le> of_int D - 1" using m1(2) by (metis of_int_1 of_int_diff of_int_le_iff)
  then have "of_int m / rat_of_int D \<le> (of_int D - 1) / of_int D"
    using Dr by (simp add: divide_right_mono)
  also have "\<dots> = 1 - 1 / rat_of_int D" using Dr by (simp add: field_simps)
  finally have hi: "of_int m / rat_of_int D \<le> 1 - 1 / of_int D" .
  have "rat_of_int D < 2 ^ 45"
  proof -
    have "2 * t < 2 ^ 45" using t44 by simp
    then have "int (2 * t) < 2 ^ 45" by (metis of_nat_less_iff of_nat_numeral of_nat_power)
    then have "D < 2 ^ 45" by (simp add: D_def)
    then show ?thesis by (metis of_int_less_iff of_int_numeral of_int_power)
  qed
  then have eps: "(1::rat) / 2 ^ 45 < 1 / of_int D" using Dr by (simp add: frac_less2)
  have "\<bar>rat_of_int c - of_int r\<bar> < 1"
    using near[folded E_def] split lo hi eps by linarith
  then have "\<bar>c - r\<bar> < 1" by (metis of_int_1 of_int_abs of_int_diff of_int_less_iff)
  then have "c = r" by simp
  with rr show ?thesis by (simp add: E_def)
qed

lemma floor_rat_numeral: "\<lfloor>numeral a / numeral b :: rat\<rfloor> = numeral a div numeral b"
  by (metis floor_divide_of_int_eq of_int_numeral)

lemma ceiling_rat_numeral: "\<lceil>numeral a / numeral b :: rat\<rceil> = - (- numeral a div numeral b)"
  by (metis ceiling_def floor_divide_of_int_eq minus_divide_left of_int_minus of_int_numeral)

lemma floor_rat_one_numeral: "\<lfloor>1 / numeral b :: rat\<rfloor> = 1 div numeral b"
  by (metis floor_divide_of_int_eq of_int_1 of_int_numeral)

text \<open>
  Claim C2, amended. For counts whose sum is below \<open>2\<^sup>4\<^sup>4\<close>, the score is 100 when the
  sum is 0; otherwise it is an integer within \<open>1/2 + 2\<^sup>-\<^sup>4\<^sup>5\<close> of \<open>100 * pass / total\<close>, and
  equal to that quotient rounded to the nearest integer whenever the quotient is not
  exactly halfway between two integers (at such a tie the rounding error of the
  division decides which of the two it is). It is always an integer from 0 to 100, and
  it is 100, 100, 0 and 50 for the counts (0,0,0,0), (10,0,0,0), (0,10,0,0) and
  (5,5,0,0).
\<close>

theorem score_nearest_integer:
  assumes "n_pass + n_fail + n_warn + n_violations < 2 ^ 44"
  shows "(n_pass + n_fail + n_warn + n_violations = 0 \<longrightarrow>
            scoreClamp n_pass n_fail n_warn n_violations = 100) \<and>
         (0 < n_pass + n_fail + n_warn + n_violations \<longrightarrow>
            \<bar>of_int (scoreClamp n_pass n_fail n_warn n_violations)
               - 100 * of_nat n_pass / of_nat (n_pass + n_fail + n_warn + n_violations)\<bar>
              \<le> (1 / 2 + 1 / 2 ^ 45 :: rat) \<and>
            (of_int \<lfloor>100 * rat_of_nat n_pass / of_nat (n_pass + n_fail + n_warn + n_violations)\<rfloor> + 1 / 2
               \<noteq> 100 * rat_of_nat n_pass / of_nat (n_pass + n_fail + n_warn + n_violations) \<longrightarrow>
             scoreClamp n_pass n_fail n_warn n_violations
               = Math_round (100 * of_nat n_pass / of_nat (n_pass + n_fail + n_warn + n_violations)))) \<and>
         0 \<le> scoreClamp n_pass n_fail n_warn n_violations \<and>
         scoreClamp n_pass n_fail n_warn n_violations \<le> 100"
proof -
  have "(2::nat) ^ 44 < 2 ^ 53" by simp
  with assms have a53: "n_pass + n_fail + n_warn + n_violations < 2 ^ 53" by linarith
  note B = scoreClamp_error[OF a53]
  show ?thesis
    using B nearest_unique[OF _ assms, of "scoreClamp n_pass n_fail n_warn n_violations" n_pass]
    by blast
qed

theorem score_nearest_integer_witness:
  "scoreClamp 0 0 0 0 = 100 \<and> scoreClamp 10 0 0 0 = 100 \<and> scoreClamp 0 10 0 0 = 0 \<and>
   scoreClamp 5 5 0 0 = 50"
  using score_nearest_integer[of 0 0 0 0] score_nearest_integer[of 10 0 0 0]
    score_nearest_integer[of 0 10 0 0] score_nearest_integer[of 5 5 0 0]
  by (simp add: Math_round_def floor_rat_numeral floor_rat_one_numeral)

text \<open>The rounding at work: the binary64 value nearest to one tenth.\<close>

lemma fl_one_tenth: "fl (1 / 10) = 3602879701896397 / 36028797018963968"
proof -
  have "bitlen 9 = 4"
    by (simp add: bitlen.simps[of 9] bitlen.simps[of 4] bitlen.simps[of 2]
        bitlen.simps[of "Suc 0"] bitlen.simps[of 0])
  then have "ilog2 (1 / 10) = - 4" by (simp add: ilog2_def)
  then show ?thesis by (simp add: fl_def round_half_even_def floor_rat_numeral)
qed

lemma fl_23_40: "fl (23 / 40) = 2589569785738035 / 4503599627370496"
proof -
  have "ilog2 (23 / 40) = - 1"
    by (simp add: ilog2_def ceiling_rat_numeral bitlen.simps[of "Suc 0"] bitlen.simps[of 0])
  then show ?thesis by (simp add: fl_def round_half_even_def floor_rat_numeral)
qed

lemma fl_percent: "fl (64739244643450875 / 1125899906842624) = 8092405580431359 / 140737488355328"
proof -
  have "bitlen 57 = 6" by (simp add: bitlen.simps[of 57] bitlen.simps[of 28] bitlen.simps[of 14]
      bitlen.simps[of 7] bitlen.simps[of 3] bitlen.simps[of "Suc 0"] bitlen.simps[of 0])
  then have "ilog2 (64739244643450875 / 1125899906842624) = 5"
    by (simp add: ilog2_def floor_rat_numeral)
  then show ?thesis by (simp add: fl_def round_half_even_def floor_rat_numeral)
qed

text \<open>23 passed checks of 40: \<open>100 * 23 / 40 = 57.5\<close> rounds to 58, and the score is 57,
  since \<^verbatim>\<open>23 / 40\<close> is rounded down to the nearest binary64 value and its product with
  100 stays below 57.5.\<close>

theorem score_tie_counterexample:
  "scoreClamp 23 17 0 0 = 57 \<and> max 0 (min 100 (Math_round (100 * 23 / (23 + 17 + 0 + 0)))) = 58"
proof -
  have t: "fl 40 = 40" using fl_of_nat[of 40] by simp
  have "scoreClamp 23 17 0 0 = 57"
    by (simp add: scoreClamp_def score_def t fl_23_40 fl_percent Math_round_def floor_rat_numeral)
  moreover have "max 0 (min 100 (Math_round (100 * 23 / (23 + 17 + 0 + 0)))) = 58"
    by (simp add: Math_round_def floor_rat_numeral)
  ultimately show ?thesis by simp
qed

end
